theory Spec2Isabelle
  imports Main "HOL-Library.Multiset" "HOL-Library.Word"
begin

section \<open>The vectorized tablet scanner and the thrift RPC helper\<close>

text \<open>
  A shallow embedding of \<^verbatim>\<open>be/src/exec/vectorized/tablet_scanner.cpp\<close> and of
  \<^verbatim>\<open>be/src/util/thrift_rpc_helper.cpp\<close>. A member \<^verbatim>\<open>_x\<close> of \<^verbatim>\<open>TabletScanner\<close> is the
  field \<open>x\<close> of the record \<open>scanner\<close>; a field \<^verbatim>\<open>x\<close> of \<^verbatim>\<open>TabletReaderParams\<close> is the
  field \<open>p_x\<close> of the record \<open>reader_params\<close>. Classes whose code lives in other files
  (the storage reader, the predicate parser, the expression evaluator, the chunk) enter
  as arguments or as the small models marked below. Every operation answers \<open>None\<close>
  when the source would dereference a null pointer (\<^verbatim>\<open>_tablet\<close>, \<^verbatim>\<open>_reader\<close> or
  \<^verbatim>\<open>_prj_iter\<close> before \<^verbatim>\<open>init\<close> has set them, \<^verbatim>\<open>_reader\<close> after \<^verbatim>\<open>close\<close>), which C++
  leaves undefined. Elapsed-time timers (\<^verbatim>\<open>SCOPED_TIMER\<close>), log lines and the pointers
  to the profile and the runtime state kept in the reader parameters are left out.
\<close>

subsection \<open>Status\<close>

datatype status_code =
  TCancelled | TEndOfFile | TInternalError | TThriftRpcError | TIOError | TCorruption
  | TNotFound | TMemLimitExceeded

datatype status = OK | Error status_code string

definition ok :: "status \<Rightarrow> bool" where
  "ok st = (st = OK)"

text \<open>
  Modelled from the spec: \<^verbatim>\<open>Status::to_string\<close> is declared in \<^verbatim>\<open>common/status.h\<close>, which is
  not among the sources; the spec only says that the underlying message is kept in the
  wrapped error. The model prints the name of the code, a colon and the message.
\<close>

fun code_as_string :: "status_code \<Rightarrow> string" where
  "code_as_string TCancelled = ''Cancelled''"
| "code_as_string TEndOfFile = ''End of file''"
| "code_as_string TInternalError = ''Internal error''"
| "code_as_string TThriftRpcError = ''Rpc error''"
| "code_as_string TIOError = ''IO error''"
| "code_as_string TCorruption = ''Corruption''"
| "code_as_string TNotFound = ''Not found''"
| "code_as_string TMemLimitExceeded = ''Memory limit exceeded''"

fun to_string :: "status \<Rightarrow> string" where
  "to_string OK = ''OK''"
| "to_string (Error c m) = code_as_string c @ '': '' @ m"

subsection \<open>Tablet schema, slots, key ranges, reader parameters\<close>

record tablet_column =
  col_name :: string
  is_key :: bool

record tablet =
  full_name :: string
  columns :: "tablet_column list"
  num_key_columns :: nat

text \<open>
  Modelled from the spec: \<^verbatim>\<open>Tablet::field_index\<close> (storage/tablet.h) is not among the
  sources. It resolves a column name to the position of the column in the tablet schema
  and answers \<open>-1\<close> when no column has that name.
\<close>

fun field_index_from :: "int \<Rightarrow> tablet_column list \<Rightarrow> string \<Rightarrow> int" where
  "field_index_from i [] n = -1"
| "field_index_from i (c # cs) n = (if col_name c = n then i else field_index_from (i + 1) cs n)"

definition field_index :: "tablet \<Rightarrow> string \<Rightarrow> int" where
  "field_index t n = field_index_from 0 (columns t) n"

text \<open>
  The tablet schema keeps its key columns in front: the columns with an id below
  \<open>num_key_columns\<close> are exactly the key columns. \<^verbatim>\<open>TabletSchema\<close> is declared outside
  these sources; \<^verbatim>\<open>_init_reader_params\<close> relies on this invariant when it takes the ids
  \<open>0\<close> to \<^verbatim>\<open>num_key_columns() - 1\<close> for the key columns, and its closing \<^verbatim>\<open>DCHECK\<close> asserts
  the sorted list that follows from it.
\<close>

definition keys_first :: "tablet \<Rightarrow> bool" where
  "keys_first t =
     (num_key_columns t \<le> length (columns t) \<and>
      list_all (\<lambda>i. is_key (columns t ! i) = (i < num_key_columns t)) [0 ..< length (columns t)])"

record slot_descriptor =
  slot_id :: nat
  slot_col_name :: string
  is_materialized :: bool

record olap_scan_range =
  begin_scan_range :: "string list"
  end_scan_range :: "string list"
  begin_include :: bool
  end_include :: bool

type_synonym column_predicate = nat

datatype reader_type = READER_QUERY | READER_ALTER_TABLE | READER_BASE_COMPACTION
  | READER_CUMULATIVE_COMPACTION | READER_CHECKSUM

record reader_params =
  p_reader_type :: reader_type
  p_skip_aggregation :: bool
  p_need_agg_finalize :: bool
  p_use_page_cache :: bool
  p_chunk_size :: nat
  p_predicates :: "column_predicate list"
  p_range :: string
  p_end_range :: string
  p_start_key :: "string list list"
  p_end_key :: "string list list"

record config =
  vector_chunk_size :: nat
  disable_storage_page_cache :: bool
  thrift_client_retry_interval_ms :: nat

subsection \<open>Reader statistics, profile counters, chunks\<close>

text \<open>
  The fields of \<^verbatim>\<open>OlapReaderStatistics\<close> that the scanner reads, and the counters of the
  parent scan node that it updates. All of them are \<^verbatim>\<open>int64_t\<close>.
\<close>

datatype stat_field =
  create_segment_iter_ns | io_ns | compressed_bytes_read_f | decompress_ns
  | uncompressed_bytes_read | bytes_read | block_load_ns | blocks_load | block_fetch_ns
  | block_seek_ns | raw_rows_read_f | vec_cond_chunk_copy_ns | segment_init_ns
  | vec_cond_evaluate_ns | rows_vec_cond_filtered | rows_del_vec_filtered
  | segment_stats_filtered | rows_stats_filtered | rows_bf_filtered
  | rows_key_range_filtered | index_load_ns | total_pages_num | cached_pages_num
  | rows_bitmap_index_filtered | bitmap_index_filter_timer | block_seek_num
  | decode_dict_ns | late_materialize_ns | del_filter_ns | rows_del_filtered

datatype counter =
  create_seg_iter_timer | rows_read_counter | io_timer | read_compressed_counter
  | decompress_timer | read_uncompressed_counter | bytes_read_counter | block_load_timer
  | block_load_counter | block_fetch_timer | block_seek_timer | raw_rows_counter
  | chunk_copy_timer | seg_init_timer | pred_filter_timer | pred_filter_counter
  | del_vec_filter_counter | seg_zm_filtered_counter | zm_filtered_counter
  | bf_filtered_counter | sk_filtered_counter | index_load_timer
  | total_pages_num_counter | cached_pages_num_counter | bi_filtered_counter
  | bi_filter_timer | block_seek_counter | pushdown_predicates_counter

type_synonym statistics = "stat_field \<Rightarrow> 64 word"

type_synonym row = "int list"

record chunk =
  chunk_fields :: "string list"
  rows :: "row list"
  slot_id_to_index :: "nat \<rightharpoonup> nat"

definition num_rows :: "chunk \<Rightarrow> nat" where
  "num_rows c = length (rows c)"

text \<open>
  Modelled from the spec: \<^verbatim>\<open>Schema::get_field_index_by_name\<close> (column/schema.h) is not
  among the sources. It answers the position of the field with the given name, and
  \<^verbatim>\<open>size_t(-1)\<close> when there is none.
\<close>

fun field_position :: "nat \<Rightarrow> string list \<Rightarrow> string \<Rightarrow> nat" where
  "field_position i [] n = 2 ^ 64 - 1"
| "field_position i (f # fs) n = (if f = n then i else field_position (Suc i) fs n)"

definition get_field_index_by_name :: "chunk \<Rightarrow> string \<Rightarrow> nat" where
  "get_field_index_by_name c n = field_position 0 (chunk_fields c) n"

text \<open>
  One future answer of the storage reader to \<^verbatim>\<open>get_next\<close>: its status, the rows it
  appends to the chunk, and what the read adds to the reader's statistics.
\<close>

record read_step =
  step_status :: status
  step_rows :: "row list"
  step_stats :: statistics

record tablet_reader =
  stats :: statistics
  pending :: "read_step list"
  r_open_calls :: nat
  r_close_calls :: nat

record expr_ctx =
  expr_id :: nat
  ctx_closed :: bool

text \<open>
  \<^verbatim>\<open>_prj_iter\<close> is either the reader itself or a projection iterator over it whose output
  schema is the scanner column list.
\<close>

datatype prj_iter_kind = Reader_itself | Projection "nat list"

text \<open>
  \<open>reader_obj\<close> is the one \<^verbatim>\<open>TabletReader\<close> object that \<^verbatim>\<open>init\<close> creates; \<open>reader\<close> says
  whether the shared pointer \<^verbatim>\<open>_reader\<close> still points to it, and \<open>prj_iter\<close> is \<open>None\<close>
  while \<^verbatim>\<open>_prj_iter\<close> is null. The object outlives \<^verbatim>\<open>_reader.reset()\<close> because
  \<^verbatim>\<open>_prj_iter\<close> keeps a reference to it.
\<close>

record scanner =
  skip_aggregation :: bool
  need_agg_finalize :: bool
  is_open :: bool
  is_closed :: bool
  has_update_counter :: bool
  tablet :: "tablet option"
  params :: reader_params
  reader_obj :: tablet_reader
  reader :: bool
  prj_iter :: "prj_iter_kind option"
  scanner_columns :: "nat list"
  reader_columns :: "nat list"
  query_slots :: "slot_descriptor list"
  predicates :: "column_predicate list"
  predicate_free_pool :: "column_predicate list"
  conjunct_ctxs :: "expr_ctx list"
  selection :: "bool list"
  compressed_bytes_read :: "64 word"
  raw_rows_read :: "64 word"
  num_rows_read :: "64 word"

text \<open>
  What the scanner shares with the rest of the process: the counters of the parent scan
  node, the counters it adds by name to the scan profile, the process-wide scan metrics,
  the memory tracker of the current thread and the thresholds handed to the column pool.
\<close>

record env =
  counters :: "counter \<Rightarrow> 64 word"
  scan_profile :: "string \<rightharpoonup> 64 word"
  query_scan_bytes :: "64 word"
  query_scan_rows :: "64 word"
  mem_consumed :: "64 word"
  released_large_columns :: "nat list"

text \<open>
  The collaborators whose code is elsewhere, taken as parameters: the pushdown oracle of
  \<^verbatim>\<open>PredicateParser\<close>, the evaluation of a column predicate and of a conjunct on one row,
  \<^verbatim>\<open>Chunk::memory_usage\<close>, the constant \<^verbatim>\<open>NEGATIVE_INFINITY\<close> and the name of the local host
  (\<^verbatim>\<open>BackendOptions::get_localhost\<close>).
\<close>

record externals =
  can_pushdown :: "column_predicate \<Rightarrow> bool"
  pred_eval :: "column_predicate \<Rightarrow> row \<Rightarrow> bool"
  conjunct_eval :: "nat \<Rightarrow> row \<Rightarrow> bool"
  memory_usage :: "chunk \<Rightarrow> 64 word"
  NEGATIVE_INFINITY :: string
  localhost :: string

subsection \<open>Initialization of the column lists and of the reader parameters\<close>

text \<open>
  \<^verbatim>\<open>_init_return_columns\<close>: the loop over the slots of the parent's tuple descriptor, then
  \<^verbatim>\<open>std::sort\<close> and the check for an empty list.
\<close>

fun return_columns_loop :: "tablet \<Rightarrow> slot_descriptor list \<Rightarrow> scanner \<Rightarrow> status \<times> scanner" where
  "return_columns_loop t [] s = (OK, s)"
| "return_columns_loop t (slot # slots) s =
     (if \<not> is_materialized slot then return_columns_loop t slots s
      else
        let index = field_index t (slot_col_name slot) in
        if index < 0 then (Error TInternalError (''invalid field name: '' @ slot_col_name slot), s)
        else return_columns_loop t slots
               (s\<lparr>scanner_columns := scanner_columns s @ [nat index],
                  query_slots := query_slots s @ [slot]\<rparr>))"

definition init_return_columns :: "slot_descriptor list \<Rightarrow> scanner \<Rightarrow> (status \<times> scanner) option" where
  "init_return_columns slots s =
     (case tablet s of
        None \<Rightarrow> None
      | Some t \<Rightarrow>
          (case return_columns_loop t slots s of
             (Error c m, s1) \<Rightarrow> Some (Error c m, s1)
           | (OK, s1) \<Rightarrow>
               let s2 = s1\<lparr>scanner_columns := sort (scanner_columns s1)\<rparr> in
               if scanner_columns s2 = []
               then Some (Error TInternalError ''failed to build storage scanner, no materialized slot!'', s2)
               else Some (OK, s2)))"

text \<open>
  \<^verbatim>\<open>_init_reader_params\<close>, first loop: every predicate goes into the free pool, and then
  either into the reader parameters or into the scanner's own conjunctive predicates.
\<close>

fun split_predicates :: "externals \<Rightarrow> column_predicate list \<Rightarrow> scanner \<Rightarrow> scanner" where
  "split_predicates x [] s = s"
| "split_predicates x (p # preds) s =
     (let s1 = s\<lparr>predicate_free_pool := predicate_free_pool s @ [p]\<rparr> in
      split_predicates x preds
        (if can_pushdown x p
         then s1\<lparr>params := (params s1)\<lparr>p_predicates := p_predicates (params s1) @ [p]\<rparr>\<rparr>
         else s1\<lparr>predicates := predicates s1 @ [p]\<rparr>))"

text \<open>
  Second loop: the key ranges. The test of the source is
  \<^verbatim>\<open>begin_scan_range.size() == 1 && begin_scan_range.get_value(0) == NEGATIVE_INFINITY\<close>;
  a range that passes it is left by \<^verbatim>\<open>continue\<close>.
\<close>

definition begins_at_negative_infinity :: "externals \<Rightarrow> olap_scan_range \<Rightarrow> bool" where
  "begins_at_negative_infinity x key_range =
     (length (begin_scan_range key_range) = 1 \<and>
      begin_scan_range key_range ! 0 = NEGATIVE_INFINITY x)"

fun add_key_ranges :: "externals \<Rightarrow> olap_scan_range list \<Rightarrow> reader_params \<Rightarrow> reader_params" where
  "add_key_ranges x [] p = p"
| "add_key_ranges x (key_range # key_ranges) p =
     (if begins_at_negative_infinity x key_range then add_key_ranges x key_ranges p
      else add_key_ranges x key_ranges
             (p\<lparr>p_range := (if begin_include key_range then ''ge'' else ''gt''),
                p_end_range := (if end_include key_range then ''le'' else ''lt''),
                p_start_key := p_start_key p @ [begin_scan_range key_range],
                p_end_key := p_end_key p @ [end_scan_range key_range]\<rparr>))"

text \<open>
  The return columns when aggregation is not skipped: the ids below
  \<^verbatim>\<open>num_key_columns()\<close>, then every scanner column that the schema does not flag as a key.
\<close>

fun push_non_key_columns :: "tablet \<Rightarrow> nat list \<Rightarrow> nat list \<Rightarrow> nat list" where
  "push_non_key_columns t [] rc = rc"
| "push_non_key_columns t (index # cols) rc =
     push_non_key_columns t cols (if \<not> is_key (columns t ! index) then rc @ [index] else rc)"

definition init_reader_params ::
  "externals \<Rightarrow> config \<Rightarrow> column_predicate list \<Rightarrow> olap_scan_range list \<Rightarrow> scanner
     \<Rightarrow> (status \<times> scanner) option" where
  "init_reader_params x cfg preds key_ranges s =
     (case tablet s of
        None \<Rightarrow> None
      | Some t \<Rightarrow>
          let s1 = s\<lparr>params := (params s)\<lparr>p_reader_type := READER_QUERY,
                                           p_skip_aggregation := skip_aggregation s,
                                           p_need_agg_finalize := need_agg_finalize s,
                                           p_use_page_cache := \<not> disable_storage_page_cache cfg,
                                           p_chunk_size := vector_chunk_size cfg\<rparr>\<rparr>;
              s2 = split_predicates x preds s1;
              s3 = s2\<lparr>params := add_key_ranges x key_ranges (params s2)\<rparr>;
              s4 = (if skip_aggregation s3 then s3\<lparr>reader_columns := scanner_columns s3\<rparr>
                    else s3\<lparr>reader_columns :=
                              push_non_key_columns t (scanner_columns s3)
                                (reader_columns s3 @ [0 ..< num_key_columns t])\<rparr>)
          in Some (OK, s4))"

subsection \<open>Open\<close>

text \<open>
  \<^verbatim>\<open>TabletScanner::open\<close>. The argument \<open>reader_open\<close> is the status with which
  \<^verbatim>\<open>_reader->open(_params)\<close> answers; \<open>r_open_calls\<close> counts the calls that reach the reader.
\<close>

definition open_scanner :: "externals \<Rightarrow> status \<Rightarrow> scanner \<Rightarrow> (status \<times> scanner) option" where
  "open_scanner x reader_open s =
     (if is_open s then Some (OK, s)
      else
        let s1 = s\<lparr>is_open := True\<rparr> in
        if \<not> reader s1 then None
        else
          let s2 = s1\<lparr>reader_obj := (reader_obj s1)\<lparr>r_open_calls := r_open_calls (reader_obj s1) + 1\<rparr>\<rparr>;
              st = reader_open
          in
          if \<not> ok st then
            (case tablet s2 of
               None \<Rightarrow> None
             | Some t \<Rightarrow>
                 Some (Error TInternalError
                         (''['' @ localhost x @ ''] fail to open tablet reader '' @ full_name t
                            @ '': '' @ to_string st), s2))
          else Some (st, s2))"

subsection \<open>Counters\<close>

definition counter_update :: "counter \<Rightarrow> 64 word \<Rightarrow> env \<Rightarrow> env" where
  "counter_update c v e = e\<lparr>counters := (counters e)(c := counters e c + v)\<rparr>"

definition counter_set :: "counter \<Rightarrow> 64 word \<Rightarrow> env \<Rightarrow> env" where
  "counter_set c v e = e\<lparr>counters := (counters e)(c := v)\<rparr>"

text \<open>
  \<^verbatim>\<open>ADD_TIMER\<close> and \<^verbatim>\<open>ADD_COUNTER\<close> on the scan profile answer the counter of that name,
  creating it with the value zero when the profile has none.
\<close>

definition add_counter :: "string \<Rightarrow> env \<Rightarrow> env" where
  "add_counter name e =
     (case scan_profile e name of
        None \<Rightarrow> e\<lparr>scan_profile := (scan_profile e)(name \<mapsto> 0)\<rparr>
      | Some old \<Rightarrow> e)"

definition profile_counter_update :: "string \<Rightarrow> 64 word \<Rightarrow> env \<Rightarrow> env" where
  "profile_counter_update name v e =
     (case scan_profile e name of
        None \<Rightarrow> e
      | Some old \<Rightarrow> e\<lparr>scan_profile := (scan_profile e)(name \<mapsto> old + v)\<rparr>)"

definition update_realtime_counter :: "scanner \<Rightarrow> env \<Rightarrow> (scanner \<times> env) option" where
  "update_realtime_counter s e =
     (if \<not> reader s then None
      else
        let e1 = counter_update read_compressed_counter (stats (reader_obj s) compressed_bytes_read_f) e;
            s1 = s\<lparr>compressed_bytes_read :=
                     compressed_bytes_read s + stats (reader_obj s) compressed_bytes_read_f\<rparr>;
            s2 = s1\<lparr>reader_obj := (reader_obj s1)\<lparr>stats := (stats (reader_obj s1))(compressed_bytes_read_f := 0)\<rparr>\<rparr>;
            e2 = counter_update raw_rows_counter (stats (reader_obj s2) raw_rows_read_f) e1;
            s3 = s2\<lparr>raw_rows_read := raw_rows_read s2 + stats (reader_obj s2) raw_rows_read_f\<rparr>;
            s4 = s3\<lparr>reader_obj := (reader_obj s3)\<lparr>stats := (stats (reader_obj s3))(raw_rows_read_f := 0)\<rparr>\<rparr>
        in Some (s4, e2))"

text \<open>
  \<^verbatim>\<open>TabletScanner::update_counter\<close>, statement by statement. \<open>st\<close> is \<^verbatim>\<open>_reader->stats()\<close>,
  which no statement of the function changes.
\<close>

definition update_counter :: "scanner \<Rightarrow> env \<Rightarrow> (scanner \<times> env) option" where
  "update_counter s e =
     (if has_update_counter s then Some (s, e)
      else if \<not> reader s then None
      else
        let st = stats (reader_obj s);
            e = counter_update create_seg_iter_timer (st create_segment_iter_ns) e;
            e = counter_update rows_read_counter (num_rows_read s) e;
            e = counter_update io_timer (st io_ns) e;
            e = counter_update read_compressed_counter (st compressed_bytes_read_f) e;
            s = s\<lparr>compressed_bytes_read := compressed_bytes_read s + st compressed_bytes_read_f\<rparr>;
            e = counter_update decompress_timer (st decompress_ns) e;
            e = counter_update read_uncompressed_counter (st uncompressed_bytes_read) e;
            e = counter_update bytes_read_counter (st bytes_read) e;
            e = counter_update block_load_timer (st block_load_ns) e;
            e = counter_update block_load_counter (st blocks_load) e;
            e = counter_update block_fetch_timer (st block_fetch_ns) e;
            e = counter_update block_seek_timer (st block_seek_ns) e;
            e = counter_update raw_rows_counter (st raw_rows_read_f) e;
            s = s\<lparr>raw_rows_read := raw_rows_read s + st raw_rows_read_f\<rparr>;
            e = counter_update chunk_copy_timer (st vec_cond_chunk_copy_ns) e;
            e = counter_update seg_init_timer (st segment_init_ns) e;
            e = counter_update pred_filter_timer (st vec_cond_evaluate_ns) e;
            e = counter_update pred_filter_counter (st rows_vec_cond_filtered) e;
            e = counter_update del_vec_filter_counter (st rows_del_vec_filtered) e;
            e = counter_update seg_zm_filtered_counter (st segment_stats_filtered) e;
            e = counter_update zm_filtered_counter (st rows_stats_filtered) e;
            e = counter_update bf_filtered_counter (st rows_bf_filtered) e;
            e = counter_update sk_filtered_counter (st rows_key_range_filtered) e;
            e = counter_update index_load_timer (st index_load_ns) e;
            e = counter_update total_pages_num_counter (st total_pages_num) e;
            e = counter_update cached_pages_num_counter (st cached_pages_num) e;
            e = counter_update bi_filtered_counter (st rows_bitmap_index_filtered) e;
            e = counter_update bi_filter_timer (st bitmap_index_filter_timer) e;
            e = counter_update block_seek_counter (st block_seek_num) e;
            e = counter_set pushdown_predicates_counter (of_nat (length (p_predicates (params s)))) e;
            e = e\<lparr>query_scan_bytes := query_scan_bytes e + compressed_bytes_read s\<rparr>;
            e = e\<lparr>query_scan_rows := query_scan_rows e + raw_rows_read s\<rparr>;
            e = (if 0 <s st decode_dict_ns
                 then profile_counter_update ''DictDecode'' (st decode_dict_ns)
                        (add_counter ''DictDecode'' e)
                 else e);
            e = (if 0 <s st late_materialize_ns
                 then profile_counter_update ''LateMaterialize'' (st late_materialize_ns)
                        (add_counter ''LateMaterialize'' e)
                 else e);
            e = (if 0 <s st del_filter_ns
                 then profile_counter_update ''DeleteFilterRows'' (st rows_del_filtered)
                        (profile_counter_update ''DeleteFilter'' (st del_filter_ns)
                           (add_counter ''DeleteFilterRows'' (add_counter ''DeleteFilter'' e)))
                 else e);
            s = s\<lparr>has_update_counter := True\<rparr>
        in Some (s, e))"

subsection \<open>Close\<close>

text \<open>
  \<^verbatim>\<open>TabletScanner::close\<close>. Closing the output stage reaches the reader (\<open>r_close_calls\<close>);
  \<^verbatim>\<open>release_large_columns\<close> is recorded by its argument.
\<close>

definition close :: "config \<Rightarrow> scanner \<Rightarrow> env \<Rightarrow> (status \<times> scanner \<times> env) option" where
  "close cfg s e =
     (if is_closed s then Some (OK, s, e)
      else
        (case prj_iter s of
           None \<Rightarrow> None
         | Some k \<Rightarrow>
             let s1 = s\<lparr>reader_obj := (reader_obj s)\<lparr>r_close_calls := r_close_calls (reader_obj s) + 1\<rparr>\<rparr> in
             (case update_counter s1 e of
                None \<Rightarrow> None
              | Some (s2, e2) \<Rightarrow>
                  let s3 = s2\<lparr>reader := False\<rparr>;
                      s4 = s3\<lparr>predicate_free_pool := []\<rparr>;
                      s5 = s4\<lparr>conjunct_ctxs := map (\<lambda>ctx. ctx\<lparr>ctx_closed := True\<rparr>) (conjunct_ctxs s4)\<rparr>;
                      e3 = e2\<lparr>released_large_columns :=
                                released_large_columns e2 @ [vector_chunk_size cfg * 512]\<rparr>;
                      s6 = s5\<lparr>is_closed := True\<rparr>
                  in Some (OK, s6, e3))))"

subsection \<open>The scan loop\<close>

text \<open>
  Modelled from the spec: \<^verbatim>\<open>get_next\<close> of the storage reader and of the projection
  iterator (storage/vectorized) is not among the sources; the spec gives its contract as
  a chunk, the end of the stream or an error. \<^verbatim>\<open>_prj_iter->get_next(chunk)\<close> hands out the
  next answer of the output stage. \<open>pending\<close> holds the answers the stage still has to
  give, as they leave the stage (after the projection, when there is one); once they are
  used up the stage reports the end of the stream. The statistics of the reader grow by
  what the read cost.
\<close>

definition get_next :: "scanner \<Rightarrow> chunk \<Rightarrow> status \<times> scanner \<times> chunk" where
  "get_next s c =
     (case pending (reader_obj s) of
        [] \<Rightarrow> (Error TEndOfFile [], s, c)
      | step # rest \<Rightarrow>
          let r = reader_obj s;
              s1 = s\<lparr>reader_obj := r\<lparr>pending := rest,
                                       stats := (\<lambda>f. stats r f + step_stats step f)\<rparr>\<rparr>
          in
          if ok (step_status step) then (OK, s1, c\<lparr>rows := rows c @ step_rows step\<rparr>)
          else (step_status step, s1, c))"

fun bind_slots :: "slot_descriptor list \<Rightarrow> chunk \<Rightarrow> chunk" where
  "bind_slots [] c = c"
| "bind_slots (slot # slots) c =
     bind_slots slots
       (c\<lparr>slot_id_to_index :=
            (slot_id_to_index c)(slot_id slot \<mapsto> get_field_index_by_name c (slot_col_name slot))\<rparr>)"

text \<open>
  Modelled from the spec: \<^verbatim>\<open>ConjunctivePredicates::evaluate\<close>, \<^verbatim>\<open>Chunk::filter\<close>,
  \<^verbatim>\<open>ExecNode::eval_conjuncts\<close> and \<^verbatim>\<open>CurrentMemTracker::consume\<close> are not among the sources.
  The evaluation sets the selection byte of a row when every predicate accepts the row;
  the filter keeps the selected rows; the conjuncts keep the rows that every conjunct
  accepts; the memory tracker adds the delta it is given.
\<close>

definition evaluate :: "externals \<Rightarrow> column_predicate list \<Rightarrow> chunk \<Rightarrow> bool list" where
  "evaluate x preds c = map (\<lambda>r. list_all (\<lambda>p. pred_eval x p r) preds) (rows c)"

definition filter_chunk :: "bool list \<Rightarrow> chunk \<Rightarrow> chunk" where
  "filter_chunk sel c = c\<lparr>rows := map fst (filter snd (zip (rows c) sel))\<rparr>"

definition eval_conjuncts :: "externals \<Rightarrow> expr_ctx list \<Rightarrow> chunk \<Rightarrow> chunk" where
  "eval_conjuncts x ctxs c =
     c\<lparr>rows := filter (\<lambda>r. list_all (\<lambda>ctx. conjunct_eval x (expr_id ctx) r) ctxs) (rows c)\<rparr>"

definition consume :: "64 word \<Rightarrow> env \<Rightarrow> env" where
  "consume delta e = e\<lparr>mem_consumed := mem_consumed e + delta\<rparr>"

text \<open>One pass through the body of the \<^verbatim>\<open>do ... while\<close> loop, after a successful read.\<close>

definition filter_step :: "externals \<Rightarrow> scanner \<Rightarrow> env \<Rightarrow> chunk \<Rightarrow> scanner \<times> env \<times> chunk" where
  "filter_step x s e c =
     (let c1 = bind_slots (query_slots s) c;
          (s2, e2, c2) =
             (if predicates s \<noteq> [] then
                let old_mem_usage = memory_usage x c1;
                    sel = evaluate x (predicates s) c1;
                    c' = filter_chunk sel c1
                in (s\<lparr>selection := sel\<rparr>, consume (memory_usage x c' - old_mem_usage) e, c')
              else (s, e, c1));
          (e3, c3) =
             (if conjunct_ctxs s2 \<noteq> [] then
                let old_mem_usage = memory_usage x c2;
                    c' = eval_conjuncts x (conjunct_ctxs s2) c2
                in (consume (memory_usage x c' - old_mem_usage) e2, c')
              else (e2, c2))
      in (s2, e3, c3))"

function get_chunk_loop :: "externals \<Rightarrow> scanner \<Rightarrow> env \<Rightarrow> chunk \<Rightarrow> status \<times> scanner \<times> env \<times> chunk" where
  "get_chunk_loop x s e c =
     (case get_next s c of
        (status, s1, c1) \<Rightarrow>
          if \<not> ok status then (status, s1, e, c1)
          else
            (case filter_step x s1 e c1 of
               (s2, e2, c2) \<Rightarrow>
                 if num_rows c2 = 0 then get_chunk_loop x s2 e2 c2 else (OK, s2, e2, c2)))"
  by pat_completeness auto

text \<open>
  Every turn of the loop takes one answer from the finite list of pending answers, so
  the loop ends: at the latest with the end of the stream.
\<close>

termination get_chunk_loop
  apply (relation "measure (\<lambda>(x, s, e, c). length (pending (reader_obj s)))")
   apply simp
  apply (auto simp: get_next_def filter_step_def Let_def ok_def
              split: list.splits if_splits prod.splits)
  done

text \<open>
  \<^verbatim>\<open>TabletScanner::get_chunk\<close>; \<open>is_cancelled\<close> is what \<^verbatim>\<open>state->is_cancelled()\<close> answers.
\<close>

definition get_chunk ::
  "externals \<Rightarrow> bool \<Rightarrow> scanner \<Rightarrow> env \<Rightarrow> chunk \<Rightarrow> (status \<times> scanner \<times> env \<times> chunk) option" where
  "get_chunk x is_cancelled s e c =
     (if is_cancelled then Some (Error TCancelled ''canceled state'', s, e, c)
      else
        (case prj_iter s of
           None \<Rightarrow> None
         | Some k \<Rightarrow>
             (case get_chunk_loop x s e c of
                (status, s1, e1, c1) \<Rightarrow>
                  if \<not> ok status then Some (status, s1, e1, c1)
                  else
                    (case update_realtime_counter s1 e1 of
                       None \<Rightarrow> None
                     | Some (s2, e2) \<Rightarrow> Some (OK, s2, e2, c1)))))"

subsection \<open>The thrift RPC helper\<close>

text \<open>
  \<^verbatim>\<open>ThriftRpcHelper::rpc\<close>. The callback is any \<^verbatim>\<open>std::function\<close> on the connection: it
  returns, or it throws a \<^verbatim>\<open>TTransportException\<close>, or it throws another exception of the
  thrift hierarchy below \<^verbatim>\<open>TException\<close>, or it throws an exception outside that hierarchy;
  each exception carries its \<^verbatim>\<open>what()\<close>. The inner handler catches the first kind only,
  the outer handler catches the first two kinds, and an exception of the third kind is
  caught by neither: it leaves the helper as it is thrown. The helper is run against
  what it meets: the status of the connection, the outcome of the first and of the second
  invocation of the callback, and the status of the reopening before the retry. It
  answers a status or lets an exception escape, and in either case the actions it took
  are listed in order.
\<close>

datatype cpp_exception =
  TTransportException string | TException string | Foreign_exception string

datatype call_outcome = Returns | Throws cpp_exception

datatype rpc_action = Connect | Callback | Reopen | SleepFor nat

datatype rpc_outcome = Answers status | Escapes cpp_exception

fun what :: "cpp_exception \<Rightarrow> string" where
  "what (TTransportException m) = m"
| "what (TException m) = m"
| "what (Foreign_exception m) = m"

text \<open>
  What \<^verbatim>\<open>catch (apache::thrift::TException& e)\<close> matches: \<^verbatim>\<open>TTransportException\<close> derives
  from \<^verbatim>\<open>TException\<close>.
\<close>

fun is_thrift :: "cpp_exception \<Rightarrow> bool" where
  "is_thrift (TTransportException m) = True"
| "is_thrift (TException m) = True"
| "is_thrift (Foreign_exception m) = False"

text \<open>The body of the outer handler.\<close>

definition rpc_failed ::
  "config \<Rightarrow> string \<Rightarrow> cpp_exception \<Rightarrow> rpc_action list \<Rightarrow> rpc_outcome \<times> rpc_action list" where
  "rpc_failed cfg address e taken =
     (Answers (Error TThriftRpcError
                 (''call frontend service failed, address='' @ address @ '', reason='' @ what e)),
      taken @ [SleepFor (thrift_client_retry_interval_ms cfg * 2), Reopen])"

definition rpc ::
  "config \<Rightarrow> string \<Rightarrow> status \<Rightarrow> call_outcome \<Rightarrow> status \<Rightarrow> call_outcome
     \<Rightarrow> rpc_outcome \<times> rpc_action list" where
  "rpc cfg address connected first reopened second =
     (if \<not> ok connected then (Answers connected, [Connect])
      else
        (case first of
           Returns \<Rightarrow> (Answers OK, [Connect, Callback])
         | Throws (TTransportException m) \<Rightarrow>
             if \<not> ok reopened then (Answers reopened, [Connect, Callback, Reopen])
             else
               (case second of
                  Returns \<Rightarrow> (Answers OK, [Connect, Callback, Reopen, Callback])
                | Throws e \<Rightarrow>
                    if is_thrift e then rpc_failed cfg address e [Connect, Callback, Reopen, Callback]
                    else (Escapes e, [Connect, Callback, Reopen, Callback]))
         | Throws e \<Rightarrow>
             if is_thrift e then rpc_failed cfg address e [Connect, Callback]
             else (Escapes e, [Connect, Callback])))"

subsection \<open>The account of bytes and rows\<close>

text \<open>
  For one statistic of the reader: what the pending answers of the output stage will
  still add to it.
\<close>

definition unread :: "stat_field \<Rightarrow> scanner \<Rightarrow> 64 word" where
  "unread f s = sum_list (map (\<lambda>step. step_stats step f) (pending (reader_obj s)))"

subsection \<open>Concrete inputs\<close>

text \<open>
  A tablet with two key columns and two value columns, a scanner as \<^verbatim>\<open>_get_tablet\<close> leaves
  it, a scanner as a successful \<^verbatim>\<open>init\<close> leaves it, and the surroundings they run in.
\<close>

definition example_externals :: externals where
  "example_externals =
     \<lparr>can_pushdown = (\<lambda>p. p < 2),
      pred_eval = (\<lambda>p r. 0 \<le> hd r),
      conjunct_eval = (\<lambda>i r. hd r < 10),
      memory_usage = (\<lambda>c. 8 * of_nat (length (rows c))),
      NEGATIVE_INFINITY = ''-oo'',
      localhost = ''10.0.0.7''\<rparr>"

definition example_config :: config where
  "example_config =
     \<lparr>vector_chunk_size = 4096, disable_storage_page_cache = False,
      thrift_client_retry_interval_ms = 1000\<rparr>"

definition example_tablet :: tablet where
  "example_tablet =
     \<lparr>full_name = ''10007.368169781'',
      columns = [\<lparr>col_name = ''k1'', is_key = True\<rparr>, \<lparr>col_name = ''k2'', is_key = True\<rparr>,
                 \<lparr>col_name = ''v1'', is_key = False\<rparr>, \<lparr>col_name = ''v2'', is_key = False\<rparr>],
      num_key_columns = 2\<rparr>"

definition example_slots :: "slot_descriptor list" where
  "example_slots =
     [\<lparr>slot_id = 0, slot_col_name = ''v2'', is_materialized = True\<rparr>,
      \<lparr>slot_id = 1, slot_col_name = ''k2'', is_materialized = True\<rparr>,
      \<lparr>slot_id = 2, slot_col_name = ''v1'', is_materialized = False\<rparr>]"

definition example_params :: reader_params where
  "example_params =
     \<lparr>p_reader_type = READER_QUERY, p_skip_aggregation = False, p_need_agg_finalize = False,
      p_use_page_cache = False, p_chunk_size = 0, p_predicates = [], p_range = [],
      p_end_range = [], p_start_key = [], p_end_key = []\<rparr>"

definition example_steps :: "read_step list" where
  "example_steps =
     [\<lparr>step_status = OK, step_rows = [[-1, 5], [12, 0]],
       step_stats = (\<lambda>f. 0)(compressed_bytes_read_f := 100, raw_rows_read_f := 2)\<rparr>,
      \<lparr>step_status = OK, step_rows = [[3, 7], [-4, 1], [8, 8]],
       step_stats = (\<lambda>f. 0)(compressed_bytes_read_f := 150, raw_rows_read_f := 3)\<rparr>,
      \<lparr>step_status = OK, step_rows = [[20, 0]],
       step_stats = (\<lambda>f. 0)(compressed_bytes_read_f := 40, raw_rows_read_f := 1)\<rparr>]"

definition example_reader :: tablet_reader where
  "example_reader =
     \<lparr>stats = (\<lambda>f. 0), pending = [], r_open_calls = 0, r_close_calls = 0\<rparr>"

definition fresh_scanner :: scanner where
  "fresh_scanner =
     \<lparr>skip_aggregation = False, need_agg_finalize = False, is_open = False, is_closed = False,
      has_update_counter = False, tablet = Some example_tablet, params = example_params,
      reader_obj = example_reader, reader = False, prj_iter = None, scanner_columns = [],
      reader_columns = [], query_slots = [], predicates = [], predicate_free_pool = [],
      conjunct_ctxs = [], selection = [], compressed_bytes_read = 0, raw_rows_read = 0,
      num_rows_read = 0\<rparr>"

definition ready_scanner :: scanner where
  "ready_scanner =
     fresh_scanner
       \<lparr>reader_obj := example_reader\<lparr>pending := example_steps\<rparr>,
        reader := True, prj_iter := Some (Projection [1, 3]), scanner_columns := [1, 3],
        reader_columns := [0, 1, 3], predicates := [7],
        predicate_free_pool := [7], conjunct_ctxs := [\<lparr>expr_id = 0, ctx_closed = False\<rparr>]\<rparr>"

definition example_env :: env where
  "example_env =
     \<lparr>counters = (\<lambda>c. 0), scan_profile = Map.empty, query_scan_bytes = 0, query_scan_rows = 0,
      mem_consumed = 0, released_large_columns = []\<rparr>"

definition example_chunk :: chunk where
  "example_chunk = \<lparr>chunk_fields = [''k2'', ''v2''], rows = [], slot_id_to_index = Map.empty\<rparr>"

definition example_key_ranges :: "olap_scan_range list" where
  "example_key_ranges =
     [\<lparr>begin_scan_range = [''-oo''], end_scan_range = [''5''],
       begin_include = True, end_include = True\<rparr>,
      \<lparr>begin_scan_range = [''-oo'', ''3''], end_scan_range = [''9'', ''9''],
       begin_include = False, end_include = True\<rparr>]"

text \<open>
  Four more ranges: one bound on one key, one with an empty begin tuple, one that starts
  with the sentinel and has a second element, and one that begins at negative infinity.
\<close>

definition more_key_ranges :: "olap_scan_range list" where
  "more_key_ranges =
     [\<lparr>begin_scan_range = [''7''], end_scan_range = [''9''],
       begin_include = True, end_include = False\<rparr>,
      \<lparr>begin_scan_range = [], end_scan_range = [''4''],
       begin_include = True, end_include = True\<rparr>,
      \<lparr>begin_scan_range = [''-oo'', ''3''], end_scan_range = [''9'', ''9''],
       begin_include = False, end_include = True\<rparr>,
      \<lparr>begin_scan_range = [''-oo''], end_scan_range = [''5''],
       begin_include = True, end_include = True\<rparr>]"

section \<open>Properties\<close>

subsection \<open>The column lists\<close>

lemma field_index_from_range:
  "0 \<le> i \<Longrightarrow> 0 \<le> field_index_from i cs n \<Longrightarrow>
     i \<le> field_index_from i cs n \<and> field_index_from i cs n < i + int (length cs)"
proof (induction cs arbitrary: i)
  case Nil
  then show ?case by simp
next
  case (Cons c cs)
  show ?case
  proof (cases "col_name c = n")
    case True
    then show ?thesis using Cons.prems by simp
  next
    case False
    with Cons.prems have "0 \<le> field_index_from (i + 1) cs n" by simp
    with Cons.IH [of "i + 1"] Cons.prems False show ?thesis by simp
  qed
qed

lemma field_index_in_schema:
  "0 \<le> field_index t n \<Longrightarrow> nat (field_index t n) < length (columns t)"
  using field_index_from_range [of 0 "columns t" n] by (simp add: field_index_def)

lemma return_columns_loop_keeps:
  "return_columns_loop t slots s = (st, s1) \<Longrightarrow>
     tablet s1 = tablet s \<and> reader_columns s1 = reader_columns s \<and>
     skip_aggregation s1 = skip_aggregation s"
  by (induction t slots s rule: return_columns_loop.induct)
     (auto simp: Let_def split: if_splits)

lemma return_columns_loop_in_schema:
  "return_columns_loop t slots s = (st, s1) \<Longrightarrow>
     \<forall>i \<in> set (scanner_columns s). i < length (columns t) \<Longrightarrow>
     \<forall>i \<in> set (scanner_columns s1). i < length (columns t)"
  by (induction t slots s rule: return_columns_loop.induct)
     (auto simp: Let_def field_index_in_schema split: if_splits)

lemma push_non_key_columns_filter:
  "push_non_key_columns t cols rc = rc @ filter (\<lambda>i. \<not> is_key (columns t ! i)) cols"
  by (induction cols arbitrary: rc) simp_all

lemma keys_first_iff:
  "keys_first t \<Longrightarrow> i < length (columns t) \<Longrightarrow> is_key (columns t ! i) = (i < num_key_columns t)"
  by (simp add: keys_first_def list_all_iff)

lemma split_predicates_columns:
  "scanner_columns (split_predicates x preds s) = scanner_columns s"
  "reader_columns (split_predicates x preds s) = reader_columns s"
  "skip_aggregation (split_predicates x preds s) = skip_aggregation s"
  by (induction preds arbitrary: s) (simp_all add: Let_def)

lemma init_return_columns_result:
  assumes "tablet s = Some t" and "scanner_columns s = []"
    and "init_return_columns slots s = Some (OK, s1)"
  shows "tablet s1 = Some t \<and> reader_columns s1 = reader_columns s \<and>
     skip_aggregation s1 = skip_aggregation s \<and> sorted (scanner_columns s1) \<and>
     scanner_columns s1 \<noteq> [] \<and> (\<forall>i \<in> set (scanner_columns s1). i < length (columns t))"
proof -
  obtain st0 s0 where l: "return_columns_loop t slots s = (st0, s0)"
    by (cases "return_columns_loop t slots s")
  with assms have st0: "st0 = OK" and s1: "s1 = s0\<lparr>scanner_columns := sort (scanner_columns s0)\<rparr>"
    and ne: "sort (scanner_columns s0) \<noteq> []"
    by (auto simp: init_return_columns_def Let_def split: status.splits if_splits)
  from return_columns_loop_keeps [OF l] return_columns_loop_in_schema [OF l] assms(1,2) s1 ne
  show ?thesis by simp
qed

lemma init_reader_params_columns:
  assumes "tablet s = Some t" and "init_reader_params x cfg preds krs s = Some (st, s')"
  shows "scanner_columns s' = scanner_columns s \<and>
     reader_columns s' =
       (if skip_aggregation s then scanner_columns s
        else reader_columns s @ [0 ..< num_key_columns t]
               @ filter (\<lambda>i. \<not> is_key (columns t ! i)) (scanner_columns s))"
  using assms
  by (auto simp: init_reader_params_def Let_def split_predicates_columns
      push_non_key_columns_filter)

text \<open>
  Claim C4. For every list of requested output slots and every tablet whose schema keeps
  its key columns in front, after \<^verbatim>\<open>_init_return_columns\<close> and \<^verbatim>\<open>_init_reader_params\<close> have
  run on a scanner with empty column lists, the reader column list is sorted ascending.
  When aggregation is skipped it is the scanner column list. Otherwise it holds exactly
  the ids of the key columns and the requested columns that are not keys, and every
  position holding a key column comes before every position holding a non-key column.
\<close>

theorem reader_columns_sorted_keys_first:
  assumes kf: "keys_first t" and t: "tablet s = Some t"
    and e1: "scanner_columns s = []" and e2: "reader_columns s = []"
    and rc: "init_return_columns slots s = Some (OK, s1)"
    and rp: "init_reader_params x cfg preds key_ranges s1 = Some (st, s2)"
  shows "sorted (reader_columns s2) \<and>
     (skip_aggregation s \<longrightarrow> reader_columns s2 = scanner_columns s2) \<and>
     (\<not> skip_aggregation s \<longrightarrow>
        set (reader_columns s2) =
          {i. i < num_key_columns t} \<union> {i \<in> set (scanner_columns s2). \<not> is_key (columns t ! i)} \<and>
        (\<forall>i j. i < length (reader_columns s2) \<and> j < length (reader_columns s2) \<and>
               is_key (columns t ! (reader_columns s2 ! i)) \<and>
               \<not> is_key (columns t ! (reader_columns s2 ! j)) \<longrightarrow> i < j))"
proof -
  let ?nk = "num_key_columns t"
  let ?vals = "filter (\<lambda>i. \<not> is_key (columns t ! i)) (scanner_columns s1)"
  from init_return_columns_result [OF t e1 rc]
  have t1: "tablet s1 = Some t" and r1: "reader_columns s1 = []"
    and sk: "skip_aggregation s1 = skip_aggregation s" and so: "sorted (scanner_columns s1)"
    and inb: "\<forall>i \<in> set (scanner_columns s1). i < length (columns t)"
    using e2 by simp_all
  from init_reader_params_columns [OF t1 rp] r1 sk
  have sc: "scanner_columns s2 = scanner_columns s1"
    and rd: "reader_columns s2 = (if skip_aggregation s then scanner_columns s1 else [0 ..< ?nk] @ ?vals)"
    by simp_all
  have vals_ge: "\<forall>i \<in> set ?vals. ?nk \<le> i"
    using inb keys_first_iff [OF kf] by auto
  have vals_nonkey: "\<forall>i \<in> set ?vals. \<not> is_key (columns t ! i)" by simp
  have nk_le: "?nk \<le> length (columns t)" using kf by (simp add: keys_first_def)
  have sorted_agg: "sorted ([0 ..< ?nk] @ ?vals)"
    using so vals_ge by (auto simp: sorted_append sorted_wrt_filter)
  have precede: "i < j"
    if "i < length ([0 ..< ?nk] @ ?vals)" "j < length ([0 ..< ?nk] @ ?vals)"
      "is_key (columns t ! (([0 ..< ?nk] @ ?vals) ! i))"
      "\<not> is_key (columns t ! (([0 ..< ?nk] @ ?vals) ! j))" for i j
  proof -
    have "i < ?nk"
    proof (rule ccontr)
      assume "\<not> i < ?nk"
      then have "([0 ..< ?nk] @ ?vals) ! i = ?vals ! (i - ?nk)" and "i - ?nk < length ?vals"
        using that(1) by (simp_all add: nth_append)
      then have "([0 ..< ?nk] @ ?vals) ! i \<in> set ?vals" by (metis nth_mem)
      with vals_nonkey that(3) show False by blast
    qed
    moreover have "?nk \<le> j"
    proof (rule ccontr)
      assume "\<not> ?nk \<le> j"
      then have "([0 ..< ?nk] @ ?vals) ! j = j" and "j < length (columns t)"
        using nk_le by (simp_all add: nth_append)
      with keys_first_iff [OF kf, of j] \<open>\<not> ?nk \<le> j\<close> that(4) show False by simp
    qed
    ultimately show ?thesis by simp
  qed
  show ?thesis
  proof (cases "skip_aggregation s")
    case True
    with rd sc so show ?thesis by simp
  next
    case False
    with rd have rd': "reader_columns s2 = [0 ..< ?nk] @ ?vals" by simp
    have "set (reader_columns s2) =
        {i. i < ?nk} \<union> {i \<in> set (scanner_columns s2). \<not> is_key (columns t ! i)}"
      unfolding rd' sc by auto
    with False sorted_agg precede show ?thesis unfolding rd' by blast
  qed
qed


text \<open>
  The scanner of the example asks for the columns \<open>v2\<close> and \<open>k2\<close>: the scanner columns are
  \<open>[1, 3]\<close> and the reader columns \<open>[0, 1, 3]\<close>, or \<open>[1, 3]\<close> when aggregation is skipped.
\<close>

theorem reader_columns_sorted_keys_first_witness:
  "keys_first example_tablet \<and> tablet fresh_scanner = Some example_tablet \<and>
   scanner_columns fresh_scanner = [] \<and> reader_columns fresh_scanner = [] \<and>
   \<not> skip_aggregation fresh_scanner \<and>
   (\<exists>s1 s2. init_return_columns example_slots fresh_scanner = Some (OK, s1) \<and>
      init_reader_params example_externals example_config [] [] s1 = Some (OK, s2) \<and>
      scanner_columns s2 = [1, 3] \<and> reader_columns s2 = [0, 1, 3] \<and>
      sorted (reader_columns s2)) \<and>
   (\<exists>s1 s2. init_return_columns example_slots (fresh_scanner\<lparr>skip_aggregation := True\<rparr>) = Some (OK, s1) \<and>
      init_reader_params example_externals example_config [] [] s1 = Some (OK, s2) \<and>
      scanner_columns s2 = [1, 3] \<and> reader_columns s2 = [1, 3] \<and>
      sorted (reader_columns s2))"
proof -
  let ?skip = "fresh_scanner\<lparr>skip_aggregation := True\<rparr>"
  have kf: "keys_first example_tablet"
    by code_simp
  have t: "tablet fresh_scanner = Some example_tablet" and e1: "scanner_columns fresh_scanner = []"
    and e2: "reader_columns fresh_scanner = []" and sk: "\<not> skip_aggregation fresh_scanner"
    by (simp_all add: fresh_scanner_def)
  have "map_option (\<lambda>(st, s). (st, scanner_columns s, tablet s, reader_columns s, skip_aggregation s))
          (init_return_columns example_slots fresh_scanner)
        = Some (OK, [1, 3], Some example_tablet, [], False)"
    by code_simp
  then obtain s1 where rc: "init_return_columns example_slots fresh_scanner = Some (OK, s1)"
    and sc1: "scanner_columns s1 = [1, 3]" and t1: "tablet s1 = Some example_tablet"
    and r1: "reader_columns s1 = []" and sk1: "\<not> skip_aggregation s1"
    by clarsimp
  have pn: "push_non_key_columns example_tablet [1, 3] [0 ..< num_key_columns example_tablet] = [0, 1, 3]"
    by code_simp
  obtain s2 where rp: "init_reader_params example_externals example_config [] [] s1 = Some (OK, s2)"
    and rd: "reader_columns s2 = [0, 1, 3]" and sc2: "scanner_columns s2 = [1, 3]"
    using t1 sc1 r1 sk1 pn by (simp add: init_reader_params_def Let_def)
  have t': "tablet ?skip = Some example_tablet" and e1': "scanner_columns ?skip = []"
    and e2': "reader_columns ?skip = []" and sk': "skip_aggregation ?skip"
    using t e1 e2 by simp_all
  have "map_option (\<lambda>(st, s). (st, scanner_columns s, tablet s, reader_columns s, skip_aggregation s))
          (init_return_columns example_slots ?skip)
        = Some (OK, [1, 3], Some example_tablet, [], True)"
    by code_simp
  then obtain u1 where rc': "init_return_columns example_slots ?skip = Some (OK, u1)"
    and usc1: "scanner_columns u1 = [1, 3]" and ut1: "tablet u1 = Some example_tablet"
    and uk1: "skip_aggregation u1"
    by clarsimp
  obtain u2 where rp': "init_reader_params example_externals example_config [] [] u1 = Some (OK, u2)"
    and urd: "reader_columns u2 = [1, 3]" and usc2: "scanner_columns u2 = [1, 3]"
    using ut1 usc1 uk1 by (simp add: init_reader_params_def Let_def)
  from reader_columns_sorted_keys_first [OF kf t e1 e2 rc rp]
    reader_columns_sorted_keys_first [OF kf t' e1' e2' rc' rp']
    kf t e1 e2 sk rc rp sc2 rd rc' rp' usc2 urd
  show ?thesis by blast
qed

subsection \<open>Predicates and key ranges\<close>

lemma split_predicates_pushed:
  "p_predicates (params (split_predicates x preds s)) = p_predicates (params s) @ filter (can_pushdown x) preds"
  by (induction preds arbitrary: s) (simp_all add: Let_def)

lemma split_predicates_residual:
  "predicates (split_predicates x preds s) = predicates s @ filter (\<lambda>p. \<not> can_pushdown x p) preds"
  by (induction preds arbitrary: s) (simp_all add: Let_def)

lemma split_predicates_pool:
  "predicate_free_pool (split_predicates x preds s) = predicate_free_pool s @ preds"
  by (induction preds arbitrary: s) (simp_all add: Let_def)

lemma split_predicates_keys:
  "p_start_key (params (split_predicates x preds s)) = p_start_key (params s)"
  "p_end_key (params (split_predicates x preds s)) = p_end_key (params s)"
  by (induction preds arbitrary: s) (simp_all add: Let_def)

lemma add_key_ranges_predicates:
  "p_predicates (add_key_ranges x krs p) = p_predicates p"
  by (induction krs arbitrary: p) simp_all

lemma add_key_ranges_start:
  "p_start_key (add_key_ranges x krs p) =
     p_start_key p @ map begin_scan_range (filter (\<lambda>kr. \<not> begins_at_negative_infinity x kr) krs)"
  by (induction krs arbitrary: p) simp_all

lemma add_key_ranges_end:
  "p_end_key (add_key_ranges x krs p) =
     p_end_key p @ map end_scan_range (filter (\<lambda>kr. \<not> begins_at_negative_infinity x kr) krs)"
  by (induction krs arbitrary: p) simp_all

lemma add_key_ranges_skip:
  "begins_at_negative_infinity x kr \<Longrightarrow>
     add_key_ranges x (krs1 @ kr # krs2) p = add_key_ranges x (krs1 @ krs2) p"
  by (induction krs1 arbitrary: p) simp_all

lemma init_reader_params_returns:
  "tablet s = Some t \<Longrightarrow> \<exists>s'. init_reader_params x cfg preds krs s = Some (OK, s')"
  by (simp add: init_reader_params_def Let_def)

text \<open>
  Claim C2, as amended. A key range whose begin tuple is the single negative-infinity
  sentinel is skipped as a whole: it contributes neither a start key nor an end key and
  does not touch the range operators. Initialization with the range in the list gives
  the same result as initialization without it, wherever the range stands.
\<close>

theorem negative_infinity_range_is_skipped:
  assumes "begin_scan_range key_range = [NEGATIVE_INFINITY x]"
  shows "init_reader_params x cfg preds (before @ key_range # after) s =
         init_reader_params x cfg preds (before @ after) s"
proof -
  from assms have "begins_at_negative_infinity x key_range"
    by (simp add: begins_at_negative_infinity_def)
  then show ?thesis
    by (simp add: init_reader_params_def add_key_ranges_skip Let_def split: option.splits)
qed

text \<open>
  The first range of the example begins at negative infinity and ends at \<open>5\<close>.
\<close>

theorem negative_infinity_range_is_skipped_witness:
  "begin_scan_range (hd example_key_ranges) = [NEGATIVE_INFINITY example_externals] \<and>
   init_reader_params example_externals example_config [] example_key_ranges fresh_scanner =
   init_reader_params example_externals example_config [] (tl example_key_ranges) fresh_scanner"
proof -
  have h: "begin_scan_range (hd example_key_ranges) = [NEGATIVE_INFINITY example_externals]"
    by (simp add: example_key_ranges_def example_externals_def)
  have l: "example_key_ranges = [] @ hd example_key_ranges # tl example_key_ranges"
    by (simp add: example_key_ranges_def)
  from negative_infinity_range_is_skipped [OF h, of example_config "[]" "[]" "tl example_key_ranges" fresh_scanner]
  show ?thesis using h l by simp
qed

text \<open>
  Claim C2, as stated, fails: the range from negative infinity to \<open>5\<close> leaves the end
  keys of the reader parameters empty, so its upper bound is not encoded.
\<close>

theorem upper_bound_of_negative_infinity_range_dropped:
  "map_option (p_end_key \<circ> params \<circ> snd)
     (init_reader_params example_externals example_config []
        [\<lparr>begin_scan_range = [''-oo''], end_scan_range = [''5''],
          begin_include = True, end_include = True\<rparr>] fresh_scanner) = Some []"
  by (simp add: init_reader_params_def fresh_scanner_def example_params_def example_externals_def
      begins_at_negative_infinity_def Let_def)

lemma begins_at_negative_infinity_iff:
  "begins_at_negative_infinity x key_range = (begin_scan_range key_range = [NEGATIVE_INFINITY x])"
  by (cases "begin_scan_range key_range") (auto simp: begins_at_negative_infinity_def)

lemma init_reader_params_keys:
  assumes "init_reader_params x cfg preds key_ranges s = Some (st, s')"
  shows "p_start_key (params s') =
           p_start_key (params s)
             @ map begin_scan_range (filter (\<lambda>kr. \<not> begins_at_negative_infinity x kr) key_ranges)"
    and "p_end_key (params s') =
           p_end_key (params s)
             @ map end_scan_range (filter (\<lambda>kr. \<not> begins_at_negative_infinity x kr) key_ranges)"
  using assms
  by (auto simp: init_reader_params_def Let_def add_key_ranges_start add_key_ranges_end
      split_predicates_keys split: option.splits if_splits)

text \<open>
  Claim C10. The skip applies to a key range exactly when its begin tuple is the single
  negative-infinity sentinel. Every other range of the list is encoded: one whose begin
  tuple has two or more elements, whatever its first element is, one whose single
  element is not the sentinel, and one whose begin tuple is empty. The start keys and
  the end keys that initialization adds are the begin and end tuples of exactly these
  ranges, in order.
\<close>

theorem long_begin_key_is_encoded:
  assumes "key_range \<in> set key_ranges"
    and "init_reader_params x cfg preds key_ranges s = Some (st, s')"
  shows "(begins_at_negative_infinity x key_range
            \<longleftrightarrow> begin_scan_range key_range = [NEGATIVE_INFINITY x]) \<and>
     (2 \<le> length (begin_scan_range key_range) \<longrightarrow>
        \<not> begins_at_negative_infinity x key_range \<and>
        begin_scan_range key_range \<in> set (p_start_key (params s')) \<and>
        end_scan_range key_range \<in> set (p_end_key (params s'))) \<and>
     (begin_scan_range key_range \<noteq> [NEGATIVE_INFINITY x] \<longrightarrow>
        begin_scan_range key_range \<in> set (p_start_key (params s')) \<and>
        end_scan_range key_range \<in> set (p_end_key (params s'))) \<and>
     p_start_key (params s') =
       p_start_key (params s)
         @ map begin_scan_range
             (filter (\<lambda>kr. begin_scan_range kr \<noteq> [NEGATIVE_INFINITY x]) key_ranges) \<and>
     p_end_key (params s') =
       p_end_key (params s)
         @ map end_scan_range
             (filter (\<lambda>kr. begin_scan_range kr \<noteq> [NEGATIVE_INFINITY x]) key_ranges)"
proof -
  note k = init_reader_params_keys [OF assms(2)]
  have long: "\<not> begins_at_negative_infinity x key_range"
    if "2 \<le> length (begin_scan_range key_range)"
    using that by (simp add: begins_at_negative_infinity_def)
  have enc: "begin_scan_range key_range \<in> set (p_start_key (params s')) \<and>
      end_scan_range key_range \<in> set (p_end_key (params s'))"
    if "\<not> begins_at_negative_infinity x key_range"
    using that assms(1) k by simp
  have "p_start_key (params s') =
       p_start_key (params s)
         @ map begin_scan_range
             (filter (\<lambda>kr. begin_scan_range kr \<noteq> [NEGATIVE_INFINITY x]) key_ranges)"
    and "p_end_key (params s') =
       p_end_key (params s)
         @ map end_scan_range
             (filter (\<lambda>kr. begin_scan_range kr \<noteq> [NEGATIVE_INFINITY x]) key_ranges)"
    using k by (simp_all add: begins_at_negative_infinity_iff)
  with long enc show ?thesis
    by (simp add: begins_at_negative_infinity_iff)
qed

text \<open>
  Of the four ranges only the last is skipped; the third begins with the sentinel and
  has two elements.
\<close>

theorem long_begin_key_is_encoded_witness:
  "more_key_ranges ! 2 \<in> set more_key_ranges \<and>
   2 \<le> length (begin_scan_range (more_key_ranges ! 2)) \<and>
   hd (begin_scan_range (more_key_ranges ! 2)) = NEGATIVE_INFINITY example_externals \<and>
   begin_scan_range (more_key_ranges ! 0) \<noteq> [NEGATIVE_INFINITY example_externals] \<and>
   begin_scan_range (more_key_ranges ! 1) \<noteq> [NEGATIVE_INFINITY example_externals] \<and>
   begin_scan_range (more_key_ranges ! 2) \<noteq> [NEGATIVE_INFINITY example_externals] \<and>
   begins_at_negative_infinity example_externals (more_key_ranges ! 3) \<and>
   (\<exists>s'. init_reader_params example_externals example_config [] more_key_ranges fresh_scanner
            = Some (OK, s') \<and>
      [''-oo'', ''3''] \<in> set (p_start_key (params s')) \<and>
      [''9'', ''9''] \<in> set (p_end_key (params s')) \<and>
      p_start_key (params s') = [[''7''], [], [''-oo'', ''3'']] \<and>
      p_end_key (params s') = [[''9''], [''4''], [''9'', ''9'']])"
proof -
  have a: "more_key_ranges ! 2 \<in> set more_key_ranges"
    and b: "2 \<le> length (begin_scan_range (more_key_ranges ! 2))"
    and c: "hd (begin_scan_range (more_key_ranges ! 2)) = NEGATIVE_INFINITY example_externals"
    and d: "begin_scan_range (more_key_ranges ! 0) \<noteq> [NEGATIVE_INFINITY example_externals]"
      "begin_scan_range (more_key_ranges ! 1) \<noteq> [NEGATIVE_INFINITY example_externals]"
      "begin_scan_range (more_key_ranges ! 2) \<noteq> [NEGATIVE_INFINITY example_externals]"
    and e: "begin_scan_range (more_key_ranges ! 3) = [NEGATIVE_INFINITY example_externals]"
      "more_key_ranges ! 3 \<in> set more_key_ranges"
    by (simp_all add: more_key_ranges_def example_externals_def)
  have f: "map begin_scan_range
             (filter (\<lambda>kr. begin_scan_range kr \<noteq> [NEGATIVE_INFINITY example_externals]) more_key_ranges)
           = [[''7''], [], [''-oo'', ''3'']]"
    "map end_scan_range
             (filter (\<lambda>kr. begin_scan_range kr \<noteq> [NEGATIVE_INFINITY example_externals]) more_key_ranges)
           = [[''9''], [''4''], [''9'', ''9'']]"
    by (simp_all add: more_key_ranges_def example_externals_def)
  have g: "p_start_key (params fresh_scanner) = []" "p_end_key (params fresh_scanner) = []"
    by (simp_all add: fresh_scanner_def example_params_def)
  have "tablet fresh_scanner = Some example_tablet"
    by (simp add: fresh_scanner_def)
  from init_reader_params_returns [OF this]
  obtain s' where h: "init_reader_params example_externals example_config [] more_key_ranges fresh_scanner
      = Some (OK, s')"
    by blast
  from long_begin_key_is_encoded [OF a h] long_begin_key_is_encoded [OF e(2) h] a b c d e f g h
  show ?thesis by auto
qed

text \<open>
  Claim C5. On a scanner that holds no predicates yet, \<^verbatim>\<open>_init_reader_params\<close> puts the
  predicates that the oracle accepts into the reader parameters, in order, the others
  into the scanner's residual predicates, and all of them into the free pool. A
  predicate is on exactly one side, and the two sides together are the supplied
  predicates, each as often as it was supplied.
\<close>

theorem init_reader_params_splits_predicates:
  assumes "p_predicates (params s) = []" and "predicates s = []" and "predicate_free_pool s = []"
    and "init_reader_params x cfg preds key_ranges s = Some (st, s')"
  shows "st = OK \<and>
     p_predicates (params s') = filter (can_pushdown x) preds \<and>
     predicates s' = filter (\<lambda>p. \<not> can_pushdown x p) preds \<and>
     predicate_free_pool s' = preds \<and>
     (\<forall>p \<in> set preds. can_pushdown x p \<longrightarrow> p \<in> set (p_predicates (params s')) \<and> p \<notin> set (predicates s')) \<and>
     (\<forall>p \<in> set preds. \<not> can_pushdown x p \<longrightarrow> p \<in> set (predicates s') \<and> p \<notin> set (p_predicates (params s'))) \<and>
     set (p_predicates (params s')) \<union> set (predicates s') = set preds \<and>
     mset (p_predicates (params s')) + mset (predicates s') = mset preds"
  using assms
  by (auto simp: init_reader_params_def Let_def split_predicates_pushed split_predicates_residual
      split_predicates_pool add_key_ranges_predicates split: option.splits if_splits)

text \<open>
  With the oracle of the example, which accepts the predicates \<open>0\<close> and \<open>1\<close>.
\<close>

theorem init_reader_params_splits_predicates_witness:
  "\<exists>s'. init_reader_params example_externals example_config [0, 5, 1, 3] example_key_ranges fresh_scanner
          = Some (OK, s') \<and>
        p_predicates (params s') = [0, 1] \<and> predicates s' = [5, 3] \<and>
        predicate_free_pool s' = [0, 5, 1, 3]"
proof -
  have a: "p_predicates (params fresh_scanner) = []" and b: "predicates fresh_scanner = []"
    and c: "predicate_free_pool fresh_scanner = []" and t: "tablet fresh_scanner = Some example_tablet"
    by (simp_all add: fresh_scanner_def example_params_def)
  from init_reader_params_returns [OF t]
  obtain s' where d: "init_reader_params example_externals example_config [0, 5, 1, 3]
      example_key_ranges fresh_scanner = Some (OK, s')"
    by blast
  have f: "filter (can_pushdown example_externals) [0, 5, 1, 3] = [0, 1]"
    "filter (\<lambda>p. \<not> can_pushdown example_externals p) [0, 5, 1, 3] = [5, 3]"
    by (simp_all add: example_externals_def)
  from init_reader_params_splits_predicates [OF a b c d] d f show ?thesis
    by simp
qed

subsection \<open>Open\<close>

text \<open>
  Claim C3, as stated, fails: after an open in which the reader's open fails, the flag
  \<^verbatim>\<open>_is_open\<close> is set.
\<close>

theorem open_failure_keeps_is_open_set:
  "map_option (is_open \<circ> snd)
     (open_scanner example_externals (Error TIOError ''disk failure'') ready_scanner) = Some True"
  by code_simp

text \<open>
  Claim C3, as amended. On a scanner that is already open, open answers success and
  changes nothing. Otherwise it sets \<^verbatim>\<open>_is_open\<close> and calls the reader's open once; when
  that call fails, the answer is an internal error whose message carries the host, the
  name of the tablet and the reader's own status. The flag stays set in either case, so
  every later open answers success without calling the reader again.
\<close>

theorem open_once:
  assumes "tablet s = Some t" and "reader s"
  shows "(is_open s \<longrightarrow> open_scanner x reader_open s = Some (OK, s)) \<and>
     (\<not> is_open s \<longrightarrow>
        (\<exists>s'. open_scanner x reader_open s =
                Some (if reader_open = OK then OK
                      else Error TInternalError
                             (''['' @ localhost x @ ''] fail to open tablet reader '' @ full_name t
                                @ '': '' @ to_string reader_open), s') \<and>
              s' = s\<lparr>is_open := True,
                      reader_obj := (reader_obj s)\<lparr>r_open_calls := r_open_calls (reader_obj s) + 1\<rparr>\<rparr> \<and>
              (\<forall>again. open_scanner x again s' = Some (OK, s'))))"
  using assms by (simp add: open_scanner_def Let_def ok_def)

text \<open>
  The reader of the example fails to open with an IO error; on a scanner that is open
  already the reader is not asked.
\<close>

theorem open_once_witness:
  "tablet ready_scanner = Some example_tablet \<and> reader ready_scanner \<and> \<not> is_open ready_scanner \<and>
   (\<exists>s'. open_scanner example_externals (Error TIOError ''disk failure'') ready_scanner =
            Some (Error TInternalError
                    ''[10.0.0.7] fail to open tablet reader 10007.368169781: IO error: disk failure'', s') \<and>
         is_open s' \<and> r_open_calls (reader_obj s') = 1 \<and>
         open_scanner example_externals OK s' = Some (OK, s')) \<and>
   is_open (ready_scanner\<lparr>is_open := True\<rparr>) \<and>
   open_scanner example_externals (Error TIOError ''disk failure'') (ready_scanner\<lparr>is_open := True\<rparr>)
     = Some (OK, ready_scanner\<lparr>is_open := True\<rparr>)"
proof -
  have a: "tablet ready_scanner = Some example_tablet" and b: "reader ready_scanner"
    and c: "\<not> is_open ready_scanner" and d: "r_open_calls (reader_obj ready_scanner) = 0"
    by (simp_all add: ready_scanner_def fresh_scanner_def example_reader_def)
  have e: "localhost example_externals = ''10.0.0.7''" "full_name example_tablet = ''10007.368169781''"
    by (simp_all add: example_externals_def example_tablet_def)
  have a': "tablet (ready_scanner\<lparr>is_open := True\<rparr>) = Some example_tablet"
    and b': "reader (ready_scanner\<lparr>is_open := True\<rparr>)"
    using a b by simp_all
  from open_once [OF a b, of example_externals "Error TIOError ''disk failure''"]
    open_once [OF a' b', of example_externals "Error TIOError ''disk failure''"] a b c d e
  show ?thesis by auto
qed

subsection \<open>Counters and close\<close>

lemma sel_counter_update [simp]:
  "scan_profile (counter_update c v e) = scan_profile e"
  "query_scan_bytes (counter_update c v e) = query_scan_bytes e"
  "query_scan_rows (counter_update c v e) = query_scan_rows e"
  "mem_consumed (counter_update c v e) = mem_consumed e"
  "released_large_columns (counter_update c v e) = released_large_columns e"
  by (simp_all add: counter_update_def)

lemma sel_counter_set [simp]:
  "scan_profile (counter_set c v e) = scan_profile e"
  "query_scan_bytes (counter_set c v e) = query_scan_bytes e"
  "query_scan_rows (counter_set c v e) = query_scan_rows e"
  "mem_consumed (counter_set c v e) = mem_consumed e"
  "released_large_columns (counter_set c v e) = released_large_columns e"
  by (simp_all add: counter_set_def)

lemma sel_add_counter [simp]:
  "counters (add_counter n e) = counters e"
  "query_scan_bytes (add_counter n e) = query_scan_bytes e"
  "query_scan_rows (add_counter n e) = query_scan_rows e"
  "mem_consumed (add_counter n e) = mem_consumed e"
  "released_large_columns (add_counter n e) = released_large_columns e"
  by (simp_all add: add_counter_def split: option.splits)

lemma sel_profile_counter_update [simp]:
  "counters (profile_counter_update n v e) = counters e"
  "query_scan_bytes (profile_counter_update n v e) = query_scan_bytes e"
  "query_scan_rows (profile_counter_update n v e) = query_scan_rows e"
  "mem_consumed (profile_counter_update n v e) = mem_consumed e"
  "released_large_columns (profile_counter_update n v e) = released_large_columns e"
  by (simp_all add: profile_counter_update_def split: option.splits)

lemma update_counter_first:
  assumes "\<not> has_update_counter s" and "reader s"
  shows "\<exists>e'. update_counter s e =
           Some (s\<lparr>compressed_bytes_read :=
                     compressed_bytes_read s + stats (reader_obj s) compressed_bytes_read_f,
                   raw_rows_read := raw_rows_read s + stats (reader_obj s) raw_rows_read_f,
                   has_update_counter := True\<rparr>, e') \<and>
         query_scan_bytes e' = query_scan_bytes e + (compressed_bytes_read s + stats (reader_obj s) compressed_bytes_read_f) \<and>
         query_scan_rows e' = query_scan_rows e + (raw_rows_read s + stats (reader_obj s) raw_rows_read_f) \<and>
         mem_consumed e' = mem_consumed e \<and> released_large_columns e' = released_large_columns e"
  using assms by (simp add: update_counter_def Let_def)

lemma update_counter_again:
  "has_update_counter s \<Longrightarrow> update_counter s e = Some (s, e)"
  by (simp add: update_counter_def)

lemma close_first:
  assumes "\<not> is_closed s" and "prj_iter s = Some k" and "reader s"
  shows "\<exists>s2 e2.
           update_counter
             (s\<lparr>reader_obj := (reader_obj s)\<lparr>r_close_calls := r_close_calls (reader_obj s) + 1\<rparr>\<rparr>) e
             = Some (s2, e2) \<and>
           has_update_counter s2 \<and> reader_obj s2 = (reader_obj s)\<lparr>r_close_calls := r_close_calls (reader_obj s) + 1\<rparr> \<and>
           released_large_columns e2 = released_large_columns e \<and>
           close cfg s e =
             Some (OK,
                   s2\<lparr>reader := False, predicate_free_pool := [],
                      conjunct_ctxs := map (\<lambda>ctx. ctx\<lparr>ctx_closed := True\<rparr>) (conjunct_ctxs s2),
                      is_closed := True\<rparr>,
                   e2\<lparr>released_large_columns :=
                        released_large_columns e2 @ [vector_chunk_size cfg * 512]\<rparr>)"
proof -
  let ?s1 = "s\<lparr>reader_obj := (reader_obj s)\<lparr>r_close_calls := r_close_calls (reader_obj s) + 1\<rparr>\<rparr>"
  have "\<exists>s2 e2. update_counter ?s1 e = Some (s2, e2) \<and> has_update_counter s2 \<and>
          reader_obj s2 = reader_obj ?s1 \<and> released_large_columns e2 = released_large_columns e"
  proof (cases "has_update_counter s")
    case True
    then show ?thesis by (simp add: update_counter_again)
  next
    case False
    with assms(3) update_counter_first [of ?s1 e] show ?thesis by auto
  qed
  then obtain s2 e2 where u: "update_counter ?s1 e = Some (s2, e2)" and f: "has_update_counter s2"
    and o: "reader_obj s2 = reader_obj ?s1" and l: "released_large_columns e2 = released_large_columns e"
    by blast
  with assms show ?thesis
    by (simp add: close_def Let_def)
qed

text \<open>
  Claim C6. A first close of an initialized scanner answers success and leaves the
  scanner closed with its counters flushed, its reader pointer released and its
  predicate pool empty. From then on close answers success and changes neither the
  scanner nor anything it shares (counters, scan profile, process-wide metrics, memory
  tracker, column pool), and \<^verbatim>\<open>update_counter\<close> changes nothing either: the flush has run
  once and does not run again.
\<close>

theorem close_idempotent:
  assumes "\<not> is_closed s" and "prj_iter s = Some k" and "reader s"
  shows "\<exists>s' e'. close cfg s e = Some (OK, s', e') \<and> is_closed s' \<and> has_update_counter s' \<and>
           \<not> reader s' \<and> predicate_free_pool s' = [] \<and>
           r_close_calls (reader_obj s') = r_close_calls (reader_obj s) + 1 \<and>
           released_large_columns e' = released_large_columns e @ [vector_chunk_size cfg * 512] \<and>
           close cfg s' e' = Some (OK, s', e') \<and> update_counter s' e' = Some (s', e')"
proof -
  from close_first [OF assms, where cfg = cfg and e = e] obtain s' e' where
    c: "close cfg s e = Some (OK, s', e')" and d: "is_closed s'" and u: "has_update_counter s'"
    and r: "\<not> reader s'" "predicate_free_pool s' = []"
      "r_close_calls (reader_obj s') = r_close_calls (reader_obj s) + 1"
      "released_large_columns e' = released_large_columns e @ [vector_chunk_size cfg * 512]"
    by auto
  from d have "close cfg s' e' = Some (OK, s', e')"
    by (simp add: close_def)
  moreover from u have "update_counter s' e' = Some (s', e')"
    by (rule update_counter_again)
  ultimately show ?thesis using c d u r by blast
qed

text \<open>
  Closing the scanner of the example hands the threshold \<open>4096 * 512\<close> to the column pool
  once.
\<close>

theorem close_idempotent_witness:
  "\<not> is_closed ready_scanner \<and> prj_iter ready_scanner = Some (Projection [1, 3]) \<and>
   reader ready_scanner \<and>
   (\<exists>s' e'. close example_config ready_scanner example_env = Some (OK, s', e') \<and>
      close example_config s' e' = Some (OK, s', e') \<and> update_counter s' e' = Some (s', e') \<and>
      released_large_columns e' = [2097152])"
proof -
  have a: "\<not> is_closed ready_scanner" and b: "prj_iter ready_scanner = Some (Projection [1, 3])"
    and c: "reader ready_scanner"
    by (simp_all add: ready_scanner_def fresh_scanner_def)
  have d: "released_large_columns example_env @ [vector_chunk_size example_config * 512] = [2097152]"
    by (simp add: example_env_def example_config_def)
  from close_idempotent [OF a b c, of example_config example_env] a b c d show ?thesis
    by (elim exE conjE) (intro conjI exI, simp_all)
qed

subsection \<open>The scan loop\<close>

lemma get_next_account:
  assumes "get_next s c = (st, s1, c1)"
  shows "stats (reader_obj s1) f + unread f s1 = stats (reader_obj s) f + unread f s"
    and "compressed_bytes_read s1 = compressed_bytes_read s" and "raw_rows_read s1 = raw_rows_read s"
    and "reader s1 = reader s" and "predicates s1 = predicates s"
    and "conjunct_ctxs s1 = conjunct_ctxs s" and "query_slots s1 = query_slots s"
  using assms
  by (auto simp: get_next_def unread_def Let_def split: list.splits if_splits)

lemma filter_step_account:
  assumes "filter_step x s e c = (s2, e2, c2)"
  shows "reader_obj s2 = reader_obj s"
    and "compressed_bytes_read s2 = compressed_bytes_read s" and "raw_rows_read s2 = raw_rows_read s"
    and "reader s2 = reader s" and "counters e2 = counters e"
    and "query_scan_bytes e2 = query_scan_bytes e" and "query_scan_rows e2 = query_scan_rows e"
  using assms
  by (auto simp: filter_step_def consume_def Let_def split: if_splits prod.splits)

declare get_chunk_loop.simps [simp del]

lemma get_chunk_loop_nonempty:
  "get_chunk_loop x s e c = (OK, s', e', c') \<Longrightarrow> 0 < num_rows c'"
proof (induction x s e c rule: get_chunk_loop.induct)
  case (1 x s e c)
  obtain status s1 c1 where gn: "get_next s c = (status, s1, c1)"
    by (cases "get_next s c") auto
  obtain s2 e2 c2 where fs: "filter_step x s1 e c1 = (s2, e2, c2)"
    by (cases "filter_step x s1 e c1") auto
  show ?case
  proof (cases "ok status")
    case False
    with gn "1.prems" show ?thesis
      by (simp add: get_chunk_loop.simps [of x s e c] ok_def)
  next
    case True
    show ?thesis
    proof (cases "num_rows c2 = 0")
      case True
      with \<open>ok status\<close> gn fs "1.prems" have "get_chunk_loop x s2 e2 c2 = (OK, s', e', c')"
        by (simp add: get_chunk_loop.simps [of x s e c])
      with "1.IH" [OF gn [symmetric] refl _ fs [symmetric] refl True] \<open>ok status\<close> show ?thesis by simp
    next
      case False
      with \<open>ok status\<close> gn fs "1.prems" show ?thesis
        by (simp add: get_chunk_loop.simps [of x s e c])
    qed
  qed
qed

lemma get_chunk_loop_account:
  "get_chunk_loop x s e c = (st, s', e', c') \<Longrightarrow>
     stats (reader_obj s') f + unread f s' = stats (reader_obj s) f + unread f s \<and>
     compressed_bytes_read s' = compressed_bytes_read s \<and> raw_rows_read s' = raw_rows_read s \<and>
     reader s' = reader s \<and> counters e' = counters e \<and>
     query_scan_bytes e' = query_scan_bytes e \<and> query_scan_rows e' = query_scan_rows e"
proof (induction x s e c rule: get_chunk_loop.induct)
  case (1 x s e c)
  obtain status s1 c1 where gn: "get_next s c = (status, s1, c1)"
    by (cases "get_next s c") auto
  obtain s2 e2 c2 where fs: "filter_step x s1 e c1 = (s2, e2, c2)"
    by (cases "filter_step x s1 e c1") auto
  note a = get_next_account [OF gn] and b = filter_step_account [OF fs]
  show ?case
  proof (cases "ok status")
    case False
    with gn "1.prems" a show ?thesis
      by (simp add: get_chunk_loop.simps [of x s e c])
  next
    case True
    show ?thesis
    proof (cases "num_rows c2 = 0")
      case True
      with \<open>ok status\<close> gn fs "1.prems" have "get_chunk_loop x s2 e2 c2 = (st, s', e', c')"
        by (simp add: get_chunk_loop.simps [of x s e c])
      with "1.IH" [OF gn [symmetric] refl _ fs [symmetric] refl True] \<open>ok status\<close> a b show ?thesis
        by (simp add: unread_def)
    next
      case False
      with \<open>ok status\<close> gn fs "1.prems" a b show ?thesis
        by (auto simp add: get_chunk_loop.simps [of x s e c] unread_def)
    qed
  qed
qed

lemma update_realtime_counter_result:
  assumes "reader s"
  shows "\<exists>s' e'. update_realtime_counter s e = Some (s', e') \<and>
     stats (reader_obj s') compressed_bytes_read_f = 0 \<and> stats (reader_obj s') raw_rows_read_f = 0 \<and>
     compressed_bytes_read s' = compressed_bytes_read s + stats (reader_obj s) compressed_bytes_read_f \<and>
     raw_rows_read s' = raw_rows_read s + stats (reader_obj s) raw_rows_read_f \<and>
     counters e' read_compressed_counter =
       counters e read_compressed_counter + stats (reader_obj s) compressed_bytes_read_f \<and>
     counters e' raw_rows_counter = counters e raw_rows_counter + stats (reader_obj s) raw_rows_read_f \<and>
     unread compressed_bytes_read_f s' = unread compressed_bytes_read_f s \<and>
     unread raw_rows_read_f s' = unread raw_rows_read_f s \<and>
     query_scan_bytes e' = query_scan_bytes e \<and> query_scan_rows e' = query_scan_rows e \<and>
     is_closed s' = is_closed s \<and> has_update_counter s' = has_update_counter s \<and>
     reader s' \<and> prj_iter s' = prj_iter s"
  using assms
  by (simp add: update_realtime_counter_def Let_def counter_update_def unread_def)

lemma get_next_status:
  assumes "get_next s c = (st, s1, c1)"
  shows "(st = Error TEndOfFile [] \<and> pending (reader_obj s) = []) \<or>
     (\<exists>step. pending (reader_obj s) = step # pending (reader_obj s1) \<and>
        (if ok (step_status step) then st = OK else st = step_status step))"
  using assms
  by (auto simp: get_next_def Let_def split: list.splits if_splits)

lemma filter_step_pending:
  "filter_step x s e c = (s2, e2, c2) \<Longrightarrow> pending (reader_obj s2) = pending (reader_obj s)"
  by (simp add: filter_step_account(1))

lemma get_chunk_loop_status:
  "get_chunk_loop x s e c = (st, s', e', c') \<Longrightarrow>
     st = OK \<or> st = Error TEndOfFile [] \<or> st \<in> step_status ` set (pending (reader_obj s))"
proof (induction x s e c rule: get_chunk_loop.induct)
  case (1 x s e c)
  obtain status s1 c1 where gn: "get_next s c = (status, s1, c1)"
    by (cases "get_next s c") auto
  obtain s2 e2 c2 where fs: "filter_step x s1 e c1 = (s2, e2, c2)"
    by (cases "filter_step x s1 e c1") auto
  note a = get_next_status [OF gn] and b = filter_step_pending [OF fs]
  show ?case
  proof (cases "ok status")
    case False
    with gn "1.prems" have "st = status"
      by (simp add: get_chunk_loop.simps [of x s e c])
    with a False show ?thesis by (auto simp: ok_def split: if_splits)
  next
    case True
    show ?thesis
    proof (cases "num_rows c2 = 0")
      case True
      with \<open>ok status\<close> gn fs "1.prems" have "get_chunk_loop x s2 e2 c2 = (st, s', e', c')"
        by (simp add: get_chunk_loop.simps [of x s e c])
      with "1.IH" [OF gn [symmetric] refl _ fs [symmetric] refl True] \<open>ok status\<close>
      have "st = OK \<or> st = Error TEndOfFile [] \<or> st \<in> step_status ` set (pending (reader_obj s1))"
        using b by simp
      with a \<open>ok status\<close> show ?thesis by (auto simp: ok_def)
    next
      case False
      with \<open>ok status\<close> gn fs "1.prems" show ?thesis
        by (simp add: get_chunk_loop.simps [of x s e c])
    qed
  qed
qed

text \<open>
  Claim C8. When the execution context is cancelled at entry, \<^verbatim>\<open>get_chunk\<close> answers the
  cancellation status and leaves the scanner, its reader and output stage, the shared
  counters and the chunk as they were.
\<close>

theorem get_chunk_cancelled:
  "get_chunk x True s e c = Some (Error TCancelled ''canceled state'', s, e, c)"
  by (simp add: get_chunk_def)

text \<open>
  Claim C1. Whatever answers the output stage has pending, a chunk that \<^verbatim>\<open>get_chunk\<close>
  returns with the status OK has at least one row; every other answer is the
  cancellation, the end of the stream or an error of the output stage. On an initialized
  scanner \<^verbatim>\<open>get_chunk\<close> does return. A chunk that the filters leave without rows is not
  returned: the loop goes on with the next answer of the output stage.
\<close>

theorem get_chunk_never_returns_empty_chunk:
  "(get_chunk x is_cancelled s e c = Some (OK, s', e', c') \<longrightarrow> 0 < num_rows c') \<and>
   (get_chunk x is_cancelled s e c = Some (st, s', e', c') \<and> st \<noteq> OK \<longrightarrow>
      st = Error TCancelled ''canceled state'' \<or> st = Error TEndOfFile [] \<or>
      st \<in> step_status ` set (pending (reader_obj s))) \<and>
   (prj_iter s \<noteq> None \<and> reader s \<longrightarrow> get_chunk x is_cancelled s e c \<noteq> None) \<and>
   (get_next s c = (OK, s1, c1) \<and> filter_step x s1 e c1 = (s2, e2, c2) \<and> num_rows c2 = 0 \<longrightarrow>
      get_chunk_loop x s e c = get_chunk_loop x s2 e2 c2)"
proof (intro conjI impI)
  assume a: "get_chunk x is_cancelled s e c = Some (OK, s', e', c')"
  obtain st s1 e1 c1 where l: "get_chunk_loop x s e c = (st, s1, e1, c1)"
    by (cases "get_chunk_loop x s e c") auto
  with a have "st = OK" and "c1 = c'"
    by (auto simp: get_chunk_def ok_def split: if_splits option.splits)
  with l get_chunk_loop_nonempty show "0 < num_rows c'" by blast
next
  assume a: "get_chunk x is_cancelled s e c = Some (st, s', e', c') \<and> st \<noteq> OK"
  obtain st0 s1 e1 c1 where l: "get_chunk_loop x s e c = (st0, s1, e1, c1)"
    by (cases "get_chunk_loop x s e c") auto
  from a l have "st = Error TCancelled ''canceled state'' \<or> st = st0"
    by (auto simp: get_chunk_def ok_def split: if_splits option.splits)
  with get_chunk_loop_status [OF l] a
  show "st = Error TCancelled ''canceled state'' \<or> st = Error TEndOfFile [] \<or>
      st \<in> step_status ` set (pending (reader_obj s))"
    by auto
next
  assume a: "prj_iter s \<noteq> None \<and> reader s"
  obtain st s1 e1 c1 where l: "get_chunk_loop x s e c = (st, s1, e1, c1)"
    by (cases "get_chunk_loop x s e c") auto
  from get_chunk_loop_account [OF l] a have "reader s1" by simp
  from update_realtime_counter_result [OF this, of e1]
  obtain s2 e2 where "update_realtime_counter s1 e1 = Some (s2, e2)" by blast
  with a l show "get_chunk x is_cancelled s e c \<noteq> None"
    by (auto simp: get_chunk_def)
next
  assume "get_next s c = (OK, s1, c1) \<and> filter_step x s1 e c1 = (s2, e2, c2) \<and> num_rows c2 = 0"
  then show "get_chunk_loop x s e c = get_chunk_loop x s2 e2 c2"
    by (simp add: get_chunk_loop.simps [of x s e c] ok_def)
qed

text \<open>
  In the example the filters empty the first chunk of the output stage and keep two of
  the three rows of the second. With nothing pending the answer is the end of the stream.
\<close>

theorem get_chunk_never_returns_empty_chunk_witness:
  "prj_iter ready_scanner \<noteq> None \<and> reader ready_scanner \<and>
   (\<exists>s' e' c'. get_chunk example_externals False ready_scanner example_env example_chunk
        = Some (OK, s', e', c') \<and> rows c' = [[3, 7], [8, 8]] \<and> 0 < num_rows c') \<and>
   (\<exists>s1 c1 s2 e2 c2. get_next ready_scanner example_chunk = (OK, s1, c1) \<and>
      rows c1 = [[-1, 5], [12, 0]] \<and>
      filter_step example_externals s1 example_env c1 = (s2, e2, c2) \<and> num_rows c2 = 0 \<and>
      get_chunk_loop example_externals ready_scanner example_env example_chunk
        = get_chunk_loop example_externals s2 e2 c2) \<and>
   (\<exists>s' e' c'. get_chunk example_externals False (ready_scanner\<lparr>reader_obj := example_reader\<rparr>)
        example_env example_chunk = Some (Error TEndOfFile [], s', e', c'))"
proof -
  have a: "prj_iter ready_scanner \<noteq> None \<and> reader ready_scanner"
    by (simp add: ready_scanner_def)
  have "map_option (\<lambda>(st, s, e, c). (st, rows c))
          (get_chunk example_externals False ready_scanner example_env example_chunk)
        = Some (OK, [[3, 7], [8, 8]])"
    by code_simp
  then obtain s' e' c' where
    g: "get_chunk example_externals False ready_scanner example_env example_chunk = Some (OK, s', e', c')"
    and r: "rows c' = [[3, 7], [8, 8]]"
    by clarsimp
  obtain s1 c1 where gn: "get_next ready_scanner example_chunk = (fst (get_next ready_scanner example_chunk), s1, c1)"
    by (cases "get_next ready_scanner example_chunk") auto
  obtain s2 e2 c2 where fs: "filter_step example_externals s1 example_env c1 = (s2, e2, c2)"
    by (cases "filter_step example_externals s1 example_env c1") auto
  have "(\<lambda>(st, s, c). (st, rows c, num_rows (snd (snd (filter_step example_externals s example_env c)))))
          (get_next ready_scanner example_chunk) = (OK, [[-1, 5], [12, 0]], 0)"
    by code_simp
  with gn fs have o: "get_next ready_scanner example_chunk = (OK, s1, c1)"
    and r1: "rows c1 = [[-1, 5], [12, 0]]" and z: "num_rows c2 = 0"
    by (auto simp: split_def)
  have "map_option fst (get_chunk example_externals False (ready_scanner\<lparr>reader_obj := example_reader\<rparr>)
          example_env example_chunk) = Some (Error TEndOfFile [])"
    by code_simp
  then obtain s3 e3 c3 where
    h: "get_chunk example_externals False (ready_scanner\<lparr>reader_obj := example_reader\<rparr>)
          example_env example_chunk = Some (Error TEndOfFile [], s3, e3, c3)"
    by (cases "get_chunk example_externals False (ready_scanner\<lparr>reader_obj := example_reader\<rparr>)
          example_env example_chunk") auto
  from get_chunk_never_returns_empty_chunk
         [of example_externals False ready_scanner example_env example_chunk s' e' c' OK s1 c1 s2 e2 c2]
    a g r o r1 fs z h
  show ?thesis by auto
qed

text \<open>
  Claim C7. After a successful \<^verbatim>\<open>get_chunk\<close> the reader's transient counts of compressed
  bytes and raw rows are zero, and what they held has moved to the scanner's cumulative
  totals and to the two realtime counters of the parent: the totals grew by what the
  reader held at entry plus what the answers taken in this call added. The process-wide
  metrics are untouched by \<^verbatim>\<open>get_chunk\<close>. The first flush at close adds to them the
  scanner's cumulative totals, which at that moment take in what the reader still holds
  since the last reset; so every byte and row is counted once.
\<close>

theorem bytes_and_rows_counted_once:
  "(get_chunk x False s e c = Some (OK, s', e', c') \<longrightarrow>
      stats (reader_obj s') compressed_bytes_read_f = 0 \<and>
      stats (reader_obj s') raw_rows_read_f = 0 \<and>
      compressed_bytes_read s' + unread compressed_bytes_read_f s' =
        compressed_bytes_read s + stats (reader_obj s) compressed_bytes_read_f
          + unread compressed_bytes_read_f s \<and>
      raw_rows_read s' + unread raw_rows_read_f s' =
        raw_rows_read s + stats (reader_obj s) raw_rows_read_f + unread raw_rows_read_f s \<and>
      counters e' read_compressed_counter - counters e read_compressed_counter =
        compressed_bytes_read s' - compressed_bytes_read s \<and>
      counters e' raw_rows_counter - counters e raw_rows_counter = raw_rows_read s' - raw_rows_read s \<and>
      query_scan_bytes e' = query_scan_bytes e \<and> query_scan_rows e' = query_scan_rows e) \<and>
   (\<not> is_closed t \<and> \<not> has_update_counter t \<and> close cfg t d = Some (st, t', d') \<longrightarrow>
      compressed_bytes_read t' = compressed_bytes_read t + stats (reader_obj t) compressed_bytes_read_f \<and>
      raw_rows_read t' = raw_rows_read t + stats (reader_obj t) raw_rows_read_f \<and>
      query_scan_bytes d' = query_scan_bytes d + compressed_bytes_read t' \<and>
      query_scan_rows d' = query_scan_rows d + raw_rows_read t')"
proof (intro conjI impI)
  assume a: "get_chunk x False s e c = Some (OK, s', e', c')"
  obtain st0 s1 e1 c1 where l: "get_chunk_loop x s e c = (st0, s1, e1, c1)"
    by (cases "get_chunk_loop x s e c") auto
  from a l have u: "update_realtime_counter s1 e1 = Some (s', e')"
    by (auto simp: get_chunk_def ok_def split: if_splits option.splits)
  then have r: "reader s1"
    by (auto simp: update_realtime_counter_def split: if_splits)
  from update_realtime_counter_result [OF r, of e1] u
  have p: "stats (reader_obj s') compressed_bytes_read_f = 0"
    "stats (reader_obj s') raw_rows_read_f = 0"
    "compressed_bytes_read s' = compressed_bytes_read s1 + stats (reader_obj s1) compressed_bytes_read_f"
    "raw_rows_read s' = raw_rows_read s1 + stats (reader_obj s1) raw_rows_read_f"
    "counters e' read_compressed_counter =
       counters e1 read_compressed_counter + stats (reader_obj s1) compressed_bytes_read_f"
    "counters e' raw_rows_counter = counters e1 raw_rows_counter + stats (reader_obj s1) raw_rows_read_f"
    "unread compressed_bytes_read_f s' = unread compressed_bytes_read_f s1"
    "unread raw_rows_read_f s' = unread raw_rows_read_f s1"
    "query_scan_bytes e' = query_scan_bytes e1" "query_scan_rows e' = query_scan_rows e1"
    by auto
  note q = get_chunk_loop_account [OF l, of compressed_bytes_read_f]
    and q' = get_chunk_loop_account [OF l, of raw_rows_read_f]
  show "stats (reader_obj s') compressed_bytes_read_f = 0" by (rule p(1))
  show "stats (reader_obj s') raw_rows_read_f = 0" by (rule p(2))
  show "compressed_bytes_read s' + unread compressed_bytes_read_f s' =
        compressed_bytes_read s + stats (reader_obj s) compressed_bytes_read_f
          + unread compressed_bytes_read_f s"
    using p(3,7) q by (simp add: add.assoc)
  show "raw_rows_read s' + unread raw_rows_read_f s' =
        raw_rows_read s + stats (reader_obj s) raw_rows_read_f + unread raw_rows_read_f s"
    using p(4,8) q' by (simp add: add.assoc)
  show "counters e' read_compressed_counter - counters e read_compressed_counter =
        compressed_bytes_read s' - compressed_bytes_read s"
    using p(3,5) q by simp
  show "counters e' raw_rows_counter - counters e raw_rows_counter = raw_rows_read s' - raw_rows_read s"
    using p(4,6) q by simp
  show "query_scan_bytes e' = query_scan_bytes e" using p(9) q by simp
  show "query_scan_rows e' = query_scan_rows e" using p(10) q by simp
next
  assume a: "\<not> is_closed t \<and> \<not> has_update_counter t \<and> close cfg t d = Some (st, t', d')"
  let ?t1 = "t\<lparr>reader_obj := (reader_obj t)\<lparr>r_close_calls := r_close_calls (reader_obj t) + 1\<rparr>\<rparr>"
  from a obtain t2 d2 where u: "update_counter ?t1 d = Some (t2, d2)"
    and t': "compressed_bytes_read t' = compressed_bytes_read t2" "raw_rows_read t' = raw_rows_read t2"
    and d': "query_scan_bytes d' = query_scan_bytes d2" "query_scan_rows d' = query_scan_rows d2"
    by (auto simp: close_def Let_def split: option.splits)
  from u a have r: "reader ?t1"
    by (auto simp: update_counter_def split: if_splits)
  from a have n: "\<not> has_update_counter ?t1" by simp
  from update_counter_first [OF n r, of d] u
  have "compressed_bytes_read t2 = compressed_bytes_read t + stats (reader_obj t) compressed_bytes_read_f"
    "raw_rows_read t2 = raw_rows_read t + stats (reader_obj t) raw_rows_read_f"
    "query_scan_bytes d2 = query_scan_bytes d + compressed_bytes_read t2"
    "query_scan_rows d2 = query_scan_rows d + raw_rows_read t2"
    by auto
  with t' d' show
    "compressed_bytes_read t' = compressed_bytes_read t + stats (reader_obj t) compressed_bytes_read_f"
    "raw_rows_read t' = raw_rows_read t + stats (reader_obj t) raw_rows_read_f"
    "query_scan_bytes d' = query_scan_bytes d + compressed_bytes_read t'"
    "query_scan_rows d' = query_scan_rows d + raw_rows_read t'"
    by simp_all
qed

text \<open>
  In the example the call reads 250 bytes and 5 raw rows; closing afterwards adds exactly
  these to the process-wide metrics.
\<close>

theorem bytes_and_rows_counted_once_witness:
  "\<exists>s' e' c' s'' e''.
     get_chunk example_externals False ready_scanner example_env example_chunk = Some (OK, s', e', c') \<and>
     compressed_bytes_read s' = 250 \<and> raw_rows_read s' = 5 \<and>
     stats (reader_obj s') compressed_bytes_read_f = 0 \<and> stats (reader_obj s') raw_rows_read_f = 0 \<and>
     counters e' read_compressed_counter = 250 \<and> counters e' raw_rows_counter = 5 \<and>
     \<not> is_closed s' \<and> \<not> has_update_counter s' \<and>
     close example_config s' e' = Some (OK, s'', e'') \<and>
     query_scan_bytes e'' = 250 \<and> query_scan_rows e'' = 5"
proof -
  have "map_option (\<lambda>(st, s, e, c).
            (st, compressed_bytes_read s, raw_rows_read s, counters e read_compressed_counter,
             counters e raw_rows_counter, is_closed s, has_update_counter s, prj_iter s, reader s,
             query_scan_bytes e, query_scan_rows e))
          (get_chunk example_externals False ready_scanner example_env example_chunk)
        = Some (OK, 250, 5, 250, 5, False, False, Some (Projection [1, 3]), True, 0, 0)"
    by code_simp
  then obtain s' e' c' where
    g: "get_chunk example_externals False ready_scanner example_env example_chunk = Some (OK, s', e', c')"
    and v: "compressed_bytes_read s' = 250" "raw_rows_read s' = 5"
      "counters e' read_compressed_counter = 250" "counters e' raw_rows_counter = 5"
    and f: "\<not> is_closed s'" "\<not> has_update_counter s'" "prj_iter s' = Some (Projection [1, 3])" "reader s'"
    and m: "query_scan_bytes e' = 0" "query_scan_rows e' = 0"
    by clarsimp
  from close_first [OF f(1) f(3) f(4), where cfg = example_config and e = e']
  obtain s'' e'' where cl: "close example_config s' e' = Some (OK, s'', e'')" by blast
  note t = bytes_and_rows_counted_once
    [of example_externals ready_scanner example_env example_chunk s' e' c' s' example_config e' OK s'' e'']
  from t g have z: "stats (reader_obj s') compressed_bytes_read_f = 0"
    "stats (reader_obj s') raw_rows_read_f = 0" by simp_all
  from t f cl z v m have "query_scan_bytes e'' = 250" "query_scan_rows e'' = 5" by simp_all
  with g v z f cl show ?thesis by blast
qed

subsection \<open>The thrift RPC helper\<close>

text \<open>
  Claim C9, as stated, fails: a callback that throws an exception outside the thrift
  hierarchy is a failure after which the helper neither sleeps nor reopens the connection
  nor answers a status. The exception escapes.
\<close>

theorem foreign_exception_escapes_rpc:
  "rpc example_config ''10.0.0.1:9020'' OK (Throws (Foreign_exception ''std::bad_alloc'')) OK Returns
     = (Escapes (Foreign_exception ''std::bad_alloc''), [Connect, Callback])"
  by (simp add: rpc_def ok_def)

text \<open>
  Claim C9, as amended. Once connected, the helper invokes the callback at most twice. A
  transport exception from the first invocation makes it reopen the connection and invoke
  the callback once more. Any other thrift exception from the first invocation, and any
  thrift exception from the second, makes it sleep twice the retry interval, reopen the
  connection and answer a thrift RPC error that names the address and the reason. When
  the reopening before the retry fails, its status is the answer and the callback is not
  invoked again. An exception outside the thrift hierarchy, from either invocation, is
  not handled: it escapes at once, with no sleep and no reopening after it.
\<close>

theorem rpc_retries_once:
  assumes "ok connected"
  shows "(first = Returns \<longrightarrow>
            rpc cfg address connected first reopened second = (Answers OK, [Connect, Callback])) \<and>
     (first = Throws (TTransportException m) \<and> ok reopened \<and> second = Returns \<longrightarrow>
        rpc cfg address connected first reopened second
          = (Answers OK, [Connect, Callback, Reopen, Callback])) \<and>
     (first = Throws (TTransportException m) \<and> ok reopened \<and> second = Throws e \<and> is_thrift e \<longrightarrow>
        rpc cfg address connected first reopened second =
          (Answers (Error TThriftRpcError
             (''call frontend service failed, address='' @ address @ '', reason='' @ what e)),
           [Connect, Callback, Reopen, Callback,
            SleepFor (thrift_client_retry_interval_ms cfg * 2), Reopen])) \<and>
     (first = Throws (TTransportException m) \<and> \<not> ok reopened \<longrightarrow>
        rpc cfg address connected first reopened second
          = (Answers reopened, [Connect, Callback, Reopen])) \<and>
     (first = Throws (TException m) \<longrightarrow>
        rpc cfg address connected first reopened second =
          (Answers (Error TThriftRpcError
             (''call frontend service failed, address='' @ address @ '', reason='' @ m)),
           [Connect, Callback, SleepFor (thrift_client_retry_interval_ms cfg * 2), Reopen])) \<and>
     (first = Throws (Foreign_exception m) \<longrightarrow>
        rpc cfg address connected first reopened second
          = (Escapes (Foreign_exception m), [Connect, Callback])) \<and>
     (first = Throws (TTransportException m) \<and> ok reopened \<and> second = Throws (Foreign_exception n) \<longrightarrow>
        rpc cfg address connected first reopened second
          = (Escapes (Foreign_exception n), [Connect, Callback, Reopen, Callback])) \<and>
     count_list (snd (rpc cfg address connected first reopened second)) Callback \<le> 2"
  using assms
  by (auto simp: rpc_def rpc_failed_def split: call_outcome.splits cpp_exception.splits)

text \<open>
  A call that succeeds at once, the four ways in which a call that first fails with a
  thrift exception can end, and the two ways in which a foreign exception escapes.
\<close>

theorem rpc_retries_once_witness:
  "ok OK \<and>
   rpc example_config ''10.0.0.1:9020'' OK Returns OK Returns = (Answers OK, [Connect, Callback]) \<and>
   rpc example_config ''10.0.0.1:9020'' OK (Throws (TTransportException ''broken pipe'')) OK Returns
     = (Answers OK, [Connect, Callback, Reopen, Callback]) \<and>
   rpc example_config ''10.0.0.1:9020'' OK (Throws (TTransportException ''broken pipe'')) OK
       (Throws (TTransportException ''broken pipe''))
     = (Answers (Error TThriftRpcError
                   ''call frontend service failed, address=10.0.0.1:9020, reason=broken pipe''),
        [Connect, Callback, Reopen, Callback, SleepFor 2000, Reopen]) \<and>
   rpc example_config ''10.0.0.1:9020'' OK (Throws (TTransportException ''broken pipe''))
       (Error TThriftRpcError ''could not open transport'') Returns
     = (Answers (Error TThriftRpcError ''could not open transport''), [Connect, Callback, Reopen]) \<and>
   rpc example_config ''10.0.0.1:9020'' OK (Throws (TException ''Invalid method name'')) OK Returns
     = (Answers (Error TThriftRpcError
                   ''call frontend service failed, address=10.0.0.1:9020, reason=Invalid method name''),
        [Connect, Callback, SleepFor 2000, Reopen]) \<and>
   rpc example_config ''10.0.0.1:9020'' OK (Throws (Foreign_exception ''bad_alloc'')) OK Returns
     = (Escapes (Foreign_exception ''bad_alloc''), [Connect, Callback]) \<and>
   rpc example_config ''10.0.0.1:9020'' OK (Throws (TTransportException ''broken pipe'')) OK
       (Throws (Foreign_exception ''bad_alloc''))
     = (Escapes (Foreign_exception ''bad_alloc''), [Connect, Callback, Reopen, Callback])"
proof -
  have a: "ok OK" by (simp add: ok_def)
  have b: "\<not> ok (Error TThriftRpcError ''could not open transport'')" by (simp add: ok_def)
  have c: "thrift_client_retry_interval_ms example_config * 2 = 2000"
    by (simp add: example_config_def)
  note t = rpc_retries_once [OF a, where cfg = example_config and address = "''10.0.0.1:9020''"
      and m = "''broken pipe''"]
  note t0 = t [where first = Returns and reopened = OK and second = Returns]
  note t1 = t [where first = "Throws (TTransportException ''broken pipe'')" and reopened = OK
      and second = Returns]
  note t2 = t [where first = "Throws (TTransportException ''broken pipe'')" and reopened = OK
      and second = "Throws (TTransportException ''broken pipe'')"
      and e = "TTransportException ''broken pipe''"]
  note t3 = t [where first = "Throws (TTransportException ''broken pipe'')"
      and reopened = "Error TThriftRpcError ''could not open transport''" and second = Returns]
  note t4 = rpc_retries_once [OF a, where cfg = example_config and address = "''10.0.0.1:9020''"
      and m = "''Invalid method name''" and first = "Throws (TException ''Invalid method name'')"
      and reopened = OK and second = Returns]
  note t5 = rpc_retries_once [OF a, where cfg = example_config and address = "''10.0.0.1:9020''"
      and m = "''bad_alloc''" and first = "Throws (Foreign_exception ''bad_alloc'')"
      and reopened = OK and second = Returns]
  note t6 = t [where first = "Throws (TTransportException ''broken pipe'')" and reopened = OK
      and second = "Throws (Foreign_exception ''bad_alloc'')" and n = "''bad_alloc''"]
  from t0 t1 t2 t3 t4 t5 t6 a b c show ?thesis by simp
qed

end
